theory Spec2Isabelle
  imports Main "HOL-Library.Word"
begin

section \<open>Values, objects and wire data\<close>

text \<open>
  The library (\<^verbatim>\<open>base.ts\<close>, \<^verbatim>\<open>helper.ts\<close>, \<^verbatim>\<open>worker-thread.ts\<close>) is embedded as
  state-passing functions over one endpoint (\<^verbatim>\<open>WorkerThreadHandler extends WormHoleHandler\<close>)
  together with the module-level tables it reads (\<^verbatim>\<open>WrapperHandler.cache\<close>,
  \<^verbatim>\<open>globalSolidObjects\<close>).

  A JavaScript value is a primitive, a symbol or a reference to an object with identity.
  Numbers are restricted to integers. Tokens are JavaScript numbers.
\<close>

type_synonym token = int
type_synonym ref = nat

datatype symbol = Registered string | Unique nat

datatype jsval =
    Undefined | Null | Bool bool | Num int | BigInt int | Str string
  | Sym symbol | Ref ref

text \<open>
  What the library observes of an object: whether it is callable (\<^verbatim>\<open>typeof\<close>), the
  constructors on its prototype chain (\<^verbatim>\<open>instanceof\<close>), the three properties
  \<^verbatim>\<open>pack\<close> reads from an \<^verbatim>\<open>Error\<close>, the state of a native promise, and whether a
  revocable proxy has been revoked. \<^verbatim>\<open>Boxed v\<close> is \<^verbatim>\<open>new Object(v)\<close>.
\<close>

datatype ctor = CError | CFunction | CObject | CPromise | CClass nat

datatype pstate = Pending | Following jsval | Fulfilled jsval | Rejected jsval

datatype obj =
    Ordinary bool "ctor list"
  | Boxed jsval
  | ErrorObj jsval jsval jsval
  | PromiseObj pstate
  | ProxyObj bool

text \<open>\<^verbatim>\<open>class WrapperHandler\<close>: the token and the memoised \<^verbatim>\<open>resolvePromise\<close>.\<close>

record wrapper =
  id_tok :: token
  resolvePromise :: "ref option"

datatype key = KStr string | KNum int

datatype propkey = PStr string | PNum int | PSym symbol

text \<open>\<^verbatim>\<open>PackedTypes\<close>: a value passed as it is, or one of the four tagged records.\<close>

datatype toktype = Solid | Shadow

datatype packed =
    Raw jsval
  | PackedToken toktype token
  | PackedSymbol key
  | PackedValue jsval
  | PackedError jsval jsval jsval

datatype MessageTypes =
    MPrepare | MAssign | MDelete | MApply | MConstruct | MResolve | MSuccess | MFailed

text \<open>
  \<^verbatim>\<open>interface Message\<close>. An optional field tested with \<^verbatim>\<open>== null\<close> is an option; an
  absent \<^verbatim>\<open>thisArg\<close>, \<^verbatim>\<open>value\<close> or \<^verbatim>\<open>reason\<close> is \<^verbatim>\<open>Raw Undefined\<close> and an
  absent \<^verbatim>\<open>isSymbol\<close> is false.
\<close>

record message =
  m_type :: MessageTypes
  m_token :: "token option"
  m_from :: "token option"
  m_into :: "token option"
  m_thisArg :: packed
  m_args :: "packed list option"
  m_key :: "key option"
  m_isSymbol :: bool
  m_value :: packed
  m_reason :: packed

definition msg :: "MessageTypes \<Rightarrow> message" where
  "msg t = \<lparr>m_type = t, m_token = None, m_from = None, m_into = None,
     m_thisArg = Raw Undefined, m_args = None, m_key = None, m_isSymbol = False,
     m_value = Raw Undefined, m_reason = Raw Undefined\<rparr>"

section \<open>The state of an endpoint\<close>

text \<open>
  The first group are the own properties of the handler instance; \<^verbatim>\<open>dispose\<close> deletes
  every one of them, which \<open>disposed\<close> records: reading a deleted field gives
  \<^verbatim>\<open>undefined\<close>, and calling a method on it raises a \<^verbatim>\<open>TypeError\<close>.
  \<open>resolvers\<close> maps a token to the promise whose \<^verbatim>\<open>{resolve, reject}\<close> pair it holds;
  \<open>disposableCallbacks\<close> holds the \<^verbatim>\<open>revoke\<close> functions that \<^verbatim>\<open>WrapperHandler.resolve\<close>
  registers, each named by the proxy it revokes (callbacks of other callers of
  \<^verbatim>\<open>onDispose\<close> are left out); \<open>counter\<close> is the \<^verbatim>\<open>Uint32Array\<close> cell; \<open>outbox\<close> lists the messages handed
  to \<^verbatim>\<open>send\<close>, oldest first. The second group is module-level and survives disposal.
\<close>

record state =
  disposed :: bool
  resolvers :: "token \<rightharpoonup> ref"
  solidObjects :: "ref set"
  disposableCallbacks :: "ref list"
  key2Obj :: "token \<rightharpoonup> ref"
  obj2Key :: "ref \<rightharpoonup> token"
  key2Sym :: "token \<rightharpoonup> symbol"
  sym2Key :: "symbol \<rightharpoonup> token"
  counter :: "32 word"
  outbox :: "message list"
  heap :: "ref \<rightharpoonup> obj"
  next_ref :: ref
  next_sym :: nat
  cache :: "ref \<rightharpoonup> wrapper"
  globalSolidObjects :: "ref set"

text \<open>
  A call returns a value, raises one, or (an \<^verbatim>\<open>async\<close> function only) is suspended at an
  \<^verbatim>\<open>await\<close> of a promise that is not settled in the current state; the continuation of
  a suspended call is not followed.
\<close>

datatype 'a comp = Return 'a | Throw jsval | Suspend

definition andThen ::
  "'a comp \<times> state \<Rightarrow> ('a \<Rightarrow> state \<Rightarrow> 'b comp \<times> state) \<Rightarrow> 'b comp \<times> state" where
  "andThen m f = (case m of
      (Return a, s) \<Rightarrow> f a s
    | (Throw e, s) \<Rightarrow> (Throw e, s)
    | (Suspend, s) \<Rightarrow> (Suspend, s))"

text \<open>\<^verbatim>\<open>throw new E(message)\<close>: a fresh error object; of its stack only the first line is kept.\<close>

definition throwNew :: "string \<Rightarrow> string \<Rightarrow> state \<Rightarrow> 'a comp \<times> state" where
  "throwNew name message s =
     (Throw (Ref (next_ref s)),
      s\<lparr>heap := (heap s)(next_ref s \<mapsto>
            ErrorObj (Str name) (Str message) (Str (name @ '': '' @ message))),
        next_ref := next_ref s + 1\<rparr>)"

text \<open>A method call on a field that \<^verbatim>\<open>dispose\<close> has deleted.\<close>

definition deletedField :: "state \<Rightarrow> 'a comp \<times> state" where
  "deletedField s = throwNew ''TypeError'' ''Cannot read properties of undefined'' s"

section \<open>helper.ts\<close>

fun isReferenceType :: "jsval \<Rightarrow> bool" where
  "isReferenceType (Ref r) = True"
| "isReferenceType v = False"

definition typeof :: "state \<Rightarrow> jsval \<Rightarrow> string" where
  "typeof s v = (case v of
      Undefined \<Rightarrow> ''undefined''
    | Null \<Rightarrow> ''object''
    | Bool b \<Rightarrow> ''boolean''
    | Num n \<Rightarrow> ''number''
    | BigInt n \<Rightarrow> ''bigint''
    | Str t \<Rightarrow> ''string''
    | Sym y \<Rightarrow> ''symbol''
    | Ref r \<Rightarrow> (case heap s r of
          Some (Ordinary callable chain) \<Rightarrow> if callable then ''function'' else ''object''
        | Some (ProxyObj revoked) \<Rightarrow> ''function''
        | _ \<Rightarrow> ''object''))"

section \<open>worker-thread.ts: the token counter\<close>

text \<open>
  \<^verbatim>\<open>return ++this.counter[0]\<close> on a \<^verbatim>\<open>Uint32Array\<close>: the cell keeps the sum modulo
  \<open>2^32\<close>, the expression's value is the sum itself.
\<close>

definition aquireToken :: "state \<Rightarrow> token comp \<times> state" where
  "aquireToken s =
     (if disposed s then deletedField s
      else (Return (uint (counter s) + 1), s\<lparr>counter := counter s + 1\<rparr>))"

text \<open>\<open>n\<close> calls one after the other; the tokens returned, first call first.\<close>

fun aquireTokens :: "nat \<Rightarrow> state \<Rightarrow> token list comp \<times> state" where
  "aquireTokens 0 s = (Return [], s)"
| "aquireTokens (Suc n) s =
     andThen (aquireToken s) (\<lambda>t s1.
     andThen (aquireTokens n s1) (\<lambda>ts s2. (Return (t # ts), s2)))"

section \<open>The substrate: instanceof, promises, await\<close>

text \<open>
  \<^verbatim>\<open>v instanceof C\<close>. A shadow proxy answers \<^verbatim>\<open>getPrototypeOf\<close> with \<^verbatim>\<open>null\<close>, so it
  is an instance of nothing; a revoked proxy raises on every internal operation.
\<close>

definition newError :: "string \<Rightarrow> string \<Rightarrow> state \<Rightarrow> jsval \<times> state" where
  "newError name message s =
     (Ref (next_ref s),
      s\<lparr>heap := (heap s)(next_ref s \<mapsto>
            ErrorObj (Str name) (Str message) (Str (name @ '': '' @ message))),
        next_ref := next_ref s + 1\<rparr>)"

definition revokedProxy :: "state \<Rightarrow> 'a comp \<times> state" where
  "revokedProxy s = throwNew ''TypeError'' ''Cannot perform operation on a revoked proxy'' s"

definition instanceOf :: "jsval \<Rightarrow> ctor \<Rightarrow> state \<Rightarrow> bool comp \<times> state" where
  "instanceOf v c s = (case v of
      Ref r \<Rightarrow> (case heap s r of
          Some (Ordinary callable chain) \<Rightarrow> (Return (c \<in> set chain), s)
        | Some (Boxed p) \<Rightarrow> (Return (c = CObject), s)
        | Some (ErrorObj n m k) \<Rightarrow> (Return (c = CError \<or> c = CObject), s)
        | Some (PromiseObj st) \<Rightarrow> (Return (c = CPromise \<or> c = CObject), s)
        | Some (ProxyObj revoked) \<Rightarrow> if revoked then revokedProxy s else (Return False, s)
        | None \<Rightarrow> (Return False, s))
    | _ \<Rightarrow> (Return False, s))"

text \<open>\<^verbatim>\<open>ensureType(target, type)\<close>, with \<^verbatim>\<open>type?: boolean | string | NewableFunction\<close>.\<close>

datatype expected = NoKind | KFlag bool | KTag string | KCtor ctor

fun truthy :: "expected \<Rightarrow> bool" where
  "truthy NoKind = False"
| "truthy (KFlag b) = b"
| "truthy (KTag t) = (t \<noteq> [])"
| "truthy (KCtor c) = True"

definition ensureType :: "jsval \<Rightarrow> expected \<Rightarrow> state \<Rightarrow> bool comp \<times> state" where
  "ensureType target ty s = (case ty of
      KCtor c \<Rightarrow> instanceOf target c s
    | KTag t \<Rightarrow> (Return (typeof s target = t), s)
    | _ \<Rightarrow> (Return False, s))"

text \<open>
  Native promises. \<open>resolveFn p\<close> and \<open>rejectFn p\<close> are the two functions of the promise
  \<open>p\<close>; both do nothing once \<open>p\<close> is resolved. Resolving with a promise or a live proxy
  (a thenable: its target carries \<^verbatim>\<open>then\<close>) locks \<open>p\<close> onto it; the job that later
  calls its \<^verbatim>\<open>then\<close> is not followed.
\<close>

definition newPromise :: "pstate \<Rightarrow> state \<Rightarrow> ref \<times> state" where
  "newPromise st s =
     (next_ref s,
      s\<lparr>heap := (heap s)(next_ref s \<mapsto> PromiseObj st), next_ref := next_ref s + 1\<rparr>)"

definition setPromise :: "ref \<Rightarrow> pstate \<Rightarrow> state \<Rightarrow> state" where
  "setPromise p st s = s\<lparr>heap := (heap s)(p \<mapsto> PromiseObj st)\<rparr>"

definition rejectNew :: "ref \<Rightarrow> string \<Rightarrow> string \<Rightarrow> state \<Rightarrow> state" where
  "rejectNew p name message s =
     (case newError name message s of (e, s1) \<Rightarrow> setPromise p (Rejected e) s1)"

definition resolveFn :: "ref \<Rightarrow> jsval \<Rightarrow> state \<Rightarrow> state" where
  "resolveFn p v s = (case heap s p of
      Some (PromiseObj Pending) \<Rightarrow> (case v of
          Ref r \<Rightarrow>
            if r = p then rejectNew p ''TypeError'' ''Chaining cycle detected for promise'' s
            else (case heap s r of
                Some (PromiseObj st) \<Rightarrow> setPromise p (Following v) s
              | Some (ProxyObj revoked) \<Rightarrow>
                  if revoked
                  then rejectNew p ''TypeError'' ''Cannot perform operation on a revoked proxy'' s
                  else setPromise p (Following v) s
              | _ \<Rightarrow> setPromise p (Fulfilled v) s)
        | _ \<Rightarrow> setPromise p (Fulfilled v) s)
    | _ \<Rightarrow> s)"

definition rejectFn :: "ref \<Rightarrow> jsval \<Rightarrow> state \<Rightarrow> state" where
  "rejectFn p e s = (case heap s p of
      Some (PromiseObj Pending) \<Rightarrow> setPromise p (Rejected e) s
    | _ \<Rightarrow> s)"

text \<open>\<^verbatim>\<open>Promise.resolve(v)\<close>: a native promise is returned as it is.\<close>

definition promiseResolve :: "jsval \<Rightarrow> state \<Rightarrow> ref \<times> state" where
  "promiseResolve v s =
     (let fresh = (case newPromise Pending s of (p, s1) \<Rightarrow> (p, resolveFn p v s1))
      in case v of
          Ref r \<Rightarrow> (case heap s r of Some (PromiseObj st) \<Rightarrow> (r, s) | _ \<Rightarrow> fresh)
        | _ \<Rightarrow> fresh)"

definition await :: "jsval \<Rightarrow> state \<Rightarrow> jsval comp \<times> state" where
  "await v s = (case v of
      Ref r \<Rightarrow> (case heap s r of
          Some (PromiseObj st) \<Rightarrow> (case st of
              Fulfilled x \<Rightarrow> (Return x, s)
            | Rejected e \<Rightarrow> (Throw e, s)
            | _ \<Rightarrow> (Suspend, s))
        | Some (ProxyObj revoked) \<Rightarrow> if revoked then revokedProxy s else (Suspend, s)
        | _ \<Rightarrow> (Return v, s))
    | _ \<Rightarrow> (Return v, s))"

text \<open>
  \<^verbatim>\<open>Promise.all\<close> over the outcomes of its entries: the first entry already rejected
  rejects the whole, else a pending entry leaves it pending.
\<close>

fun promiseAll :: "jsval comp list \<Rightarrow> jsval list comp" where
  "promiseAll [] = Return []"
| "promiseAll (Throw e # rs) = Throw e"
| "promiseAll (Return v # rs) = (case promiseAll rs of
      Return vs \<Rightarrow> Return (v # vs) | Throw e \<Rightarrow> Throw e | Suspend \<Rightarrow> Suspend)"
| "promiseAll (Suspend # rs) = (case promiseAll rs of Throw e \<Rightarrow> Throw e | _ \<Rightarrow> Suspend)"

section \<open>class WormHoleHandler: the registry\<close>

definition WrapperHandler_get :: "state \<Rightarrow> jsval \<Rightarrow> wrapper option" where
  "WrapperHandler_get s wrappedObj = (case wrappedObj of Ref r \<Rightarrow> cache s r | _ \<Rightarrow> None)"

definition isHandler :: "state \<Rightarrow> jsval \<Rightarrow> bool" where
  "isHandler s v = (case v of Ref r \<Rightarrow> cache s r \<noteq> None | _ \<Rightarrow> False)"

text \<open>\<^verbatim>\<open>send\<close> of the worker-thread endpoint: \<^verbatim>\<open>this.port.postMessage(data)\<close>.\<close>

definition send :: "message \<Rightarrow> state \<Rightarrow> unit comp \<times> state" where
  "send data s =
     (if disposed s then deletedField s
      else (Return (), s\<lparr>outbox := outbox s @ [data]\<rparr>))"

definition storeLocal :: "token option \<Rightarrow> jsval \<Rightarrow> state \<Rightarrow> unit comp \<times> state" where
  "storeLocal i obj s = (case i of
      None \<Rightarrow> throwNew ''ReferenceError'' ''Invalid Id'' s
    | Some k \<Rightarrow>
        if disposed s then deletedField s
        else (case promiseResolve obj s of (p, s1) \<Rightarrow>
          (Return (),
           (case obj of
              Ref r \<Rightarrow> s1\<lparr>key2Obj := (key2Obj s1)(k \<mapsto> p), obj2Key := (obj2Key s1)(r \<mapsto> k)\<rparr>
            | _ \<Rightarrow> s1\<lparr>key2Obj := (key2Obj s1)(k \<mapsto> p)\<rparr>))))"

definition registerToken :: "jsval \<Rightarrow> token option \<Rightarrow> state \<Rightarrow> token comp \<times> state" where
  "registerToken obj tok s = (case WrapperHandler_get s obj of
      Some handler \<Rightarrow> (Return (id_tok handler), s)
    | None \<Rightarrow>
        if disposed s then deletedField s
        else (case (case obj of Ref r \<Rightarrow> obj2Key s r | _ \<Rightarrow> None) of
            Some k \<Rightarrow> (Return k, s)
          | None \<Rightarrow>
              andThen (case tok of None \<Rightarrow> aquireToken s | Some t \<Rightarrow> (Return t, s)) (\<lambda>k s1.
              andThen (storeLocal (Some k) obj s1) (\<lambda>u s2. (Return k, s2)))))"

definition setSolid :: "jsval \<Rightarrow> state \<Rightarrow> unit comp \<times> state" where
  "setSolid obj s = (case obj of
      Ref r \<Rightarrow>
        if disposed s then deletedField s
        else (Return (), s\<lparr>solidObjects := insert r (solidObjects s)\<rparr>)
    | _ \<Rightarrow> (Return (), s))"

definition isSolid :: "jsval \<Rightarrow> state \<Rightarrow> bool comp \<times> state" where
  "isSolid obj s = (case obj of
      Ref r \<Rightarrow>
        if disposed s then deletedField s
        else (Return (r \<in> solidObjects s \<or> r \<in> globalSolidObjects s), s)
    | _ \<Rightarrow> (Return False, s))"

definition fromSymbol :: "symbol \<Rightarrow> state \<Rightarrow> key comp \<times> state" where
  "fromSymbol y s = (case y of
      Registered k \<Rightarrow> (Return (KStr k), s)
    | Unique n \<Rightarrow>
        if disposed s then deletedField s
        else (case sym2Key s y of
            Some k \<Rightarrow> (Return (KNum k), s)
          | None \<Rightarrow> andThen (aquireToken s) (\<lambda>k s1.
              (Return (KNum k),
               s1\<lparr>key2Sym := (key2Sym s1)(k \<mapsto> y), sym2Key := (sym2Key s1)(y \<mapsto> k)\<rparr>))))"

definition toSymbol :: "key \<Rightarrow> state \<Rightarrow> symbol comp \<times> state" where
  "toSymbol k s = (case k of
      KStr t \<Rightarrow> (Return (Registered t), s)
    | KNum n \<Rightarrow>
        if disposed s then deletedField s
        else (case key2Sym s n of
            Some y \<Rightarrow> (Return y, s)
          | None \<Rightarrow>
              (Return (Unique (next_sym s)),
               s\<lparr>next_sym := next_sym s + 1,
                 key2Sym := (key2Sym s)(n \<mapsto> Unique (next_sym s)),
                 sym2Key := (sym2Key s)(Unique (next_sym s) \<mapsto> n)\<rparr>)))"

section \<open>Request correlation and remote resolution\<close>

text \<open>
  \<^verbatim>\<open>sendAndWait\<close>: the executor runs inside \<^verbatim>\<open>new Promise\<close>, which turns an exception
  of the executor into a rejection of the promise it returns.
\<close>

definition sendAndWait :: "message \<Rightarrow> state \<Rightarrow> ref \<times> state" where
  "sendAndWait data s = (case newPromise Pending s of (p, s0) \<Rightarrow>
     (case andThen (aquireToken s0) (\<lambda>token s1.
             send (data\<lparr>m_token := Some token\<rparr>)
               (s1\<lparr>resolvers := (resolvers s1)(token \<mapsto> p)\<rparr>)) of
        (Throw e, s2) \<Rightarrow> (p, rejectFn p e s2)
      | (r, s2) \<Rightarrow> (p, s2)))"

definition popResolver :: "token option \<Rightarrow> state \<Rightarrow> ref option comp \<times> state" where
  "popResolver tok s = (case tok of
      None \<Rightarrow> (Return None, s)
    | Some t \<Rightarrow>
        if disposed s then deletedField s
        else (case resolvers s t of
            None \<Rightarrow> (Return None, s)
          | Some p \<Rightarrow> (Return (Some p), s\<lparr>resolvers := (resolvers s)(t := None)\<rparr>)))"

definition onDispose :: "ref \<Rightarrow> state \<Rightarrow> unit comp \<times> state" where
  "onDispose callback s =
     (if disposed s then deletedField s
      else (Return (), s\<lparr>disposableCallbacks := disposableCallbacks s @ [callback]\<rparr>))"

text \<open>
  \<^verbatim>\<open>createShadow(handler, token)\<close>, that is
  \<^verbatim>\<open>new WrapperHandler(handler, token).resolve(true)\<close>: a new revocable proxy, entered in
  \<^verbatim>\<open>WrapperHandler.cache\<close>, its \<^verbatim>\<open>revoke\<close> registered with \<^verbatim>\<open>onDispose\<close>.
\<close>

definition createShadow :: "token \<Rightarrow> state \<Rightarrow> jsval comp \<times> state" where
  "createShadow token s =
     (let proxy = next_ref s;
          s1 = s\<lparr>heap := (heap s)(proxy \<mapsto> ProxyObj False),
                 next_ref := proxy + 1,
                 cache := (cache s)(proxy \<mapsto> \<lparr>id_tok = token, resolvePromise = None\<rparr>)\<rparr>
      in andThen (onDispose proxy s1) (\<lambda>u s2. (Return (Ref proxy), s2)))"

definition resolveRemote :: "token \<Rightarrow> bool \<Rightarrow> state \<Rightarrow> jsval comp \<times> state" where
  "resolveRemote token shadowed s =
     (if shadowed then createShadow token s
      else if disposed s then deletedField s
      else (case key2Obj s token of
          Some promise \<Rightarrow> (Return (Ref promise), s)
        | None \<Rightarrow> (case sendAndWait ((msg MResolve)\<lparr>m_from := Some token\<rparr>) s of
            (promise, s1) \<Rightarrow>
              (Return (Ref promise), s1\<lparr>key2Obj := (key2Obj s1)(token \<mapsto> promise)\<rparr>))))"

section \<open>Marshalling\<close>

text \<open>
  \<^verbatim>\<open>value.name\<close>, \<^verbatim>\<open>value.message\<close>, \<^verbatim>\<open>value.stack\<close> of an instance of \<^verbatim>\<open>Error\<close>; an
  object that only has \<^verbatim>\<open>Error.prototype\<close> on its chain inherits the first two.
\<close>

definition errorFields :: "state \<Rightarrow> ref \<Rightarrow> packed" where
  "errorFields s r = (case heap s r of
      Some (ErrorObj n m k) \<Rightarrow> PackedError n m k
    | _ \<Rightarrow> PackedError (Str ''Error'') (Str []) Undefined)"

definition pack :: "jsval \<Rightarrow> bool \<Rightarrow> state \<Rightarrow> packed comp \<times> state" where
  "pack v clone s = (case v of
      Sym y \<Rightarrow> andThen (fromSymbol y s) (\<lambda>k s1. (Return (PackedSymbol k), s1))
    | Ref r \<Rightarrow>
        andThen (instanceOf v CError s) (\<lambda>isError s1.
        if isError then (Return (errorFields s1 r), s1)
        else
          andThen (if clone then (Return True, s1)
                   else andThen (isSolid v s1) (\<lambda>solid s2.
                        (Return (solid \<and> \<not> isHandler s2 v), s2))) (\<lambda>byValue s3.
          if byValue then (Return (PackedValue v), s3)
          else
            andThen (isSolid v s3) (\<lambda>solid s4.
            andThen (registerToken v None s4) (\<lambda>k s5.
            (Return (PackedToken (if solid then Solid else Shadow) k), s5)))))
    | _ \<Rightarrow> (Return (Raw v), s))"

fun packList :: "jsval list \<Rightarrow> state \<Rightarrow> packed list comp \<times> state" where
  "packList [] s = (Return [], s)"
| "packList (v # vs) s =
     andThen (pack v False s) (\<lambda>p s1.
     andThen (packList vs s1) (\<lambda>ps s2. (Return (p # ps), s2)))"

text \<open>
  \<^verbatim>\<open>unpack\<close>. The rebuilt error takes \<^verbatim>\<open>name\<close> and \<^verbatim>\<open>stack\<close> as they come; an absent
  \<^verbatim>\<open>message\<close> leaves the inherited empty one (the conversion of a message that is not
  a string is left out).
\<close>

definition unpack :: "packed \<Rightarrow> state \<Rightarrow> jsval comp \<times> state" where
  "unpack value s = (case value of
      PackedSymbol k \<Rightarrow> andThen (toSymbol k s) (\<lambda>y s1. (Return (Sym y), s1))
    | PackedValue v \<Rightarrow> (Return v, s)
    | PackedToken ty k \<Rightarrow> resolveRemote k (ty = Shadow) s
    | PackedError n m k \<Rightarrow>
        (Return (Ref (next_ref s)),
         s\<lparr>heap := (heap s)(next_ref s \<mapsto>
               ErrorObj n (case m of Undefined \<Rightarrow> Str [] | _ \<Rightarrow> m) k),
           next_ref := next_ref s + 1\<rparr>)
    | Raw v \<Rightarrow> (Return v, s))"

fun unpackList :: "packed list \<Rightarrow> state \<Rightarrow> jsval list comp \<times> state" where
  "unpackList [] s = (Return [], s)"
| "unpackList (x # xs) s =
     andThen (unpack x s) (\<lambda>v s1.
     andThen (unpackList xs s1) (\<lambda>vs s2. (Return (v # vs), s2)))"

text \<open>
  \<^verbatim>\<open>unpackAll\<close>: an entry that is a handler is kept out of \<^verbatim>\<open>wait\<close> and stays as it
  is; every other entry is awaited through \<^verbatim>\<open>Promise.all\<close>.
\<close>

fun awaitEach :: "jsval list \<Rightarrow> state \<Rightarrow> jsval comp list \<times> state" where
  "awaitEach [] s = ([], s)"
| "awaitEach (v # vs) s =
     (case (if isHandler s v then (Return v, s) else await v s) of (r, s1) \<Rightarrow>
      (case awaitEach vs s1 of (rs, s2) \<Rightarrow> (r # rs, s2)))"

definition unpackAll :: "packed list \<Rightarrow> state \<Rightarrow> jsval list comp \<times> state" where
  "unpackAll src s =
     andThen (unpackList src s) (\<lambda>vs s1.
     case awaitEach vs s1 of (rs, s2) \<Rightarrow> (promiseAll rs, s2))"

section \<open>Local lookup\<close>

definition resolveKey :: "message \<Rightarrow> state \<Rightarrow> propkey comp \<times> state" where
  "resolveKey data s = (case m_key data of
      None \<Rightarrow> throwNew ''TypeError'' ''Key is not defined.'' s
    | Some k \<Rightarrow>
        if m_isSymbol data
        then andThen (toSymbol k s) (\<lambda>y s1. (Return (PSym y), s1))
        else (Return (case k of KStr t \<Rightarrow> PStr t | KNum n \<Rightarrow> PNum n), s))"

text \<open>\<^verbatim>\<open>new Object(result)\<close> for a result that is not a reference.\<close>

definition newObject :: "jsval \<Rightarrow> state \<Rightarrow> jsval comp \<times> state" where
  "newObject v s =
     (Return (Ref (next_ref s)),
      s\<lparr>heap := (heap s)(next_ref s \<mapsto>
            (if v = Undefined \<or> v = Null then Ordinary False [CObject] else Boxed v)),
        next_ref := next_ref s + 1\<rparr>)"

definition resolveLocal :: "token option \<Rightarrow> expected \<Rightarrow> state \<Rightarrow> jsval comp \<times> state" where
  "resolveLocal i ty s =
     (let unknown = (if \<not> truthy ty then (Return Undefined, s)
                     else throwNew ''ReferenceError'' ''Invalid Id'' s)
      in case i of
          None \<Rightarrow> unknown
        | Some k \<Rightarrow>
            if disposed s then deletedField s
            else (case key2Obj s k of
                None \<Rightarrow> unknown
              | Some p \<Rightarrow>
                  andThen (await (Ref p) s) (\<lambda>result s1.
                  andThen (ensureType result ty s1) (\<lambda>ok s2.
                  if \<not> ok then throwNew ''TypeError'' ''Invalid type'' s2
                  else if isReferenceType result then (Return result, s2)
                  else newObject result s2))))"

section \<open>Operations on objects: the proxy traps of WrapperHandler\<close>

text \<open>
  What the surrounding program and the engine contribute: the \<^verbatim>\<open>Reflect\<close> operations
  on an object that is not a shadow proxy run code of the program, which may do anything
  to the state; \<open>functionHas\<close> and \<open>functionGet\<close> give the properties, own or inherited,
  of a plain function object.
\<close>

record host =
  hostGet :: "ref \<Rightarrow> propkey \<Rightarrow> state \<Rightarrow> jsval comp \<times> state"
  hostSet :: "ref \<Rightarrow> propkey \<Rightarrow> jsval \<Rightarrow> state \<Rightarrow> bool comp \<times> state"
  hostDelete :: "ref \<Rightarrow> propkey \<Rightarrow> state \<Rightarrow> bool comp \<times> state"
  hostApply :: "ref \<Rightarrow> jsval \<Rightarrow> jsval list \<Rightarrow> state \<Rightarrow> jsval comp \<times> state"
  hostConstruct :: "ref \<Rightarrow> jsval list \<Rightarrow> state \<Rightarrow> jsval comp \<times> state"
  functionHas :: "propkey \<Rightarrow> bool"
  functionGet :: "propkey \<Rightarrow> jsval"

text \<open>
  \<^verbatim>\<open>Reflect.has(target, key)\<close> on the proxy target
  \<^verbatim>\<open>Object.assign(function () { }, WrapperHandler.baseTypeMixin)\<close>.
\<close>

definition targetHas :: "host \<Rightarrow> propkey \<Rightarrow> bool" where
  "targetHas h k = (k = PStr ''then'' \<or> functionHas h k)"

text \<open>The key of an outgoing message: \<^verbatim>\<open>fromSymbol\<close> for a symbol.\<close>

definition wireKey :: "propkey \<Rightarrow> state \<Rightarrow> (key \<times> bool) comp \<times> state" where
  "wireKey k s = (case k of
      PSym y \<Rightarrow> andThen (fromSymbol y s) (\<lambda>w s1. (Return (w, True), s1))
    | PStr t \<Rightarrow> (Return (KStr t, False), s)
    | PNum n \<Rightarrow> (Return (KNum n, False), s))"

definition trap_get :: "host \<Rightarrow> wrapper \<Rightarrow> propkey \<Rightarrow> state \<Rightarrow> jsval comp \<times> state" where
  "trap_get h w k s =
     (if targetHas h k then (Return (functionGet h k), s)
      else
        andThen (aquireToken s) (\<lambda>into s1.
        andThen (wireKey k s1) (\<lambda>(wk, isSymbol) s2.
        andThen (send ((msg MPrepare)\<lparr>m_from := Some (id_tok w), m_key := Some wk,
                    m_isSymbol := isSymbol, m_into := Some into\<rparr>) s2) (\<lambda>u s3.
        resolveRemote into True s3))))"

definition trap_set :: "host \<Rightarrow> wrapper \<Rightarrow> propkey \<Rightarrow> jsval \<Rightarrow> state \<Rightarrow> bool comp \<times> state" where
  "trap_set h w k value s =
     (if targetHas h k then (Return False, s)
      else
        andThen (wireKey k s) (\<lambda>(wk, isSymbol) s1.
        andThen (pack value False s1) (\<lambda>pv s2.
        andThen (send ((msg MAssign)\<lparr>m_from := Some (id_tok w), m_key := Some wk,
                    m_isSymbol := isSymbol, m_value := pv\<rparr>) s2) (\<lambda>u s3.
        (Return True, s3)))))"

definition trap_deleteProperty :: "host \<Rightarrow> wrapper \<Rightarrow> propkey \<Rightarrow> state \<Rightarrow> bool comp \<times> state" where
  "trap_deleteProperty h w k s =
     (if targetHas h k then (Return False, s)
      else
        andThen (wireKey k s) (\<lambda>(wk, isSymbol) s1.
        andThen (send ((msg MDelete)\<lparr>m_from := Some (id_tok w), m_key := Some wk,
                    m_isSymbol := isSymbol\<rparr>) s1) (\<lambda>u s2.
        (Return True, s2))))"

definition trap_apply :: "wrapper \<Rightarrow> jsval \<Rightarrow> jsval list \<Rightarrow> state \<Rightarrow> jsval comp \<times> state" where
  "trap_apply w thisArg args s =
     andThen (aquireToken s) (\<lambda>into s1.
     andThen (pack thisArg False s1) (\<lambda>pt s2.
     andThen (packList args s2) (\<lambda>pa s3.
     andThen (send ((msg MApply)\<lparr>m_from := Some (id_tok w), m_thisArg := pt,
                 m_args := Some pa, m_into := Some into\<rparr>) s3) (\<lambda>u s4.
     resolveRemote into True s4))))"

definition trap_construct :: "wrapper \<Rightarrow> jsval list \<Rightarrow> state \<Rightarrow> jsval comp \<times> state" where
  "trap_construct w args s =
     andThen (aquireToken s) (\<lambda>into s1.
     andThen (packList args s1) (\<lambda>pa s2.
     andThen (send ((msg MConstruct)\<lparr>m_from := Some (id_tok w), m_args := Some pa,
                 m_into := Some into\<rparr>) s2) (\<lambda>u s3.
     resolveRemote into True s3)))"

text \<open>
  \<^verbatim>\<open>WrapperHandler.resolve()\<close> of the handler of proxy \<open>p\<close>, and the \<^verbatim>\<open>then\<close> of
  \<^verbatim>\<open>baseTypeMixin\<close> up to the promise it chains on.
\<close>

definition resolve_plain :: "ref \<Rightarrow> wrapper \<Rightarrow> state \<Rightarrow> jsval comp \<times> state" where
  "resolve_plain p w s = (case resolvePromise w of
      Some q \<Rightarrow> (Return (Ref q), s)
    | None \<Rightarrow>
        andThen (resolveRemote (id_tok w) False s) (\<lambda>v s1.
        (Return v,
         (case v of
            Ref q \<Rightarrow> s1\<lparr>cache := (cache s1)(p \<mapsto> w\<lparr>resolvePromise := Some q\<rparr>)\<rparr>
          | _ \<Rightarrow> s1))))"

definition then_mixin :: "ref \<Rightarrow> state \<Rightarrow> jsval comp \<times> state" where
  "then_mixin p s = (case WrapperHandler_get s (Ref p) of
      Some w \<Rightarrow> resolve_plain p w s
    | None \<Rightarrow>
        (case newError ''TypeError'' ''Cannot sync current object.'' s of (e, s1) \<Rightarrow>
         (case newPromise (Rejected e) s1 of (q, s2) \<Rightarrow> (Return (Ref q), s2))))"

text \<open>
  The operations as a caller performs them on a value. On a shadow proxy they reach the
  trap, unless the proxy is revoked; on any other object they are the program's own.
\<close>

definition Reflect_get :: "host \<Rightarrow> jsval \<Rightarrow> propkey \<Rightarrow> state \<Rightarrow> jsval comp \<times> state" where
  "Reflect_get h target k s = (case target of
      Ref r \<Rightarrow> (case heap s r of
          Some (ProxyObj revoked) \<Rightarrow>
            if revoked then revokedProxy s
            else (case cache s r of
                Some w \<Rightarrow> trap_get h w k s
              | None \<Rightarrow> hostGet h r k s)
        | _ \<Rightarrow> hostGet h r k s)
    | _ \<Rightarrow> throwNew ''TypeError'' ''Reflect.get called on non-object'' s)"

definition Reflect_set :: "host \<Rightarrow> jsval \<Rightarrow> propkey \<Rightarrow> jsval \<Rightarrow> state \<Rightarrow> bool comp \<times> state" where
  "Reflect_set h target k value s = (case target of
      Ref r \<Rightarrow> (case heap s r of
          Some (ProxyObj revoked) \<Rightarrow>
            if revoked then revokedProxy s
            else (case cache s r of
                Some w \<Rightarrow> trap_set h w k value s
              | None \<Rightarrow> hostSet h r k value s)
        | _ \<Rightarrow> hostSet h r k value s)
    | _ \<Rightarrow> throwNew ''TypeError'' ''Reflect.set called on non-object'' s)"

definition Reflect_deleteProperty :: "host \<Rightarrow> jsval \<Rightarrow> propkey \<Rightarrow> state \<Rightarrow> bool comp \<times> state" where
  "Reflect_deleteProperty h target k s = (case target of
      Ref r \<Rightarrow> (case heap s r of
          Some (ProxyObj revoked) \<Rightarrow>
            if revoked then revokedProxy s
            else (case cache s r of
                Some w \<Rightarrow> trap_deleteProperty h w k s
              | None \<Rightarrow> hostDelete h r k s)
        | _ \<Rightarrow> hostDelete h r k s)
    | _ \<Rightarrow> throwNew ''TypeError'' ''Reflect.deleteProperty called on non-object'' s)"

definition Reflect_apply :: "host \<Rightarrow> jsval \<Rightarrow> jsval \<Rightarrow> jsval list \<Rightarrow> state \<Rightarrow> jsval comp \<times> state" where
  "Reflect_apply h target thisArg args s = (case target of
      Ref r \<Rightarrow> (case heap s r of
          Some (ProxyObj revoked) \<Rightarrow>
            if revoked then revokedProxy s
            else (case cache s r of
                Some w \<Rightarrow> trap_apply w thisArg args s
              | None \<Rightarrow> hostApply h r thisArg args s)
        | _ \<Rightarrow> hostApply h r thisArg args s)
    | _ \<Rightarrow> throwNew ''TypeError'' ''Function.prototype.apply was called on a non-function'' s)"

definition Reflect_construct :: "host \<Rightarrow> jsval \<Rightarrow> jsval list \<Rightarrow> state \<Rightarrow> jsval comp \<times> state" where
  "Reflect_construct h target args s = (case target of
      Ref r \<Rightarrow> (case heap s r of
          Some (ProxyObj revoked) \<Rightarrow>
            if revoked then revokedProxy s
            else (case cache s r of
                Some w \<Rightarrow> trap_construct w args s
              | None \<Rightarrow> hostConstruct h r args s)
        | _ \<Rightarrow> hostConstruct h r args s)
    | _ \<Rightarrow> throwNew ''TypeError'' ''Reflect.construct called on a non-constructor'' s)"

text \<open>
  Resolving a handle (\<^verbatim>\<open>await handle\<close>): the read of \<^verbatim>\<open>then\<close> goes through the proxy,
  then the mixin runs.
\<close>

definition handle_resolve :: "ref \<Rightarrow> state \<Rightarrow> jsval comp \<times> state" where
  "handle_resolve p s = (case heap s p of
      Some (ProxyObj revoked) \<Rightarrow> if revoked then revokedProxy s else then_mixin p s
    | _ \<Rightarrow> then_mixin p s)"

section \<open>The dispatcher\<close>

text \<open>
  The \<^verbatim>\<open>switch\<close> of \<^verbatim>\<open>onReceive\<close>: the value computed and the \<^verbatim>\<open>clone\<close> flag. The
  \<^verbatim>\<open>success\<close> and \<^verbatim>\<open>failed\<close> cases leave \<^verbatim>\<open>value\<close> undefined and evaluate
  \<^verbatim>\<open>unpack\<close> only when a resolver was found (\<^verbatim>\<open>?.\<close>).
\<close>

definition branch :: "host \<Rightarrow> message \<Rightarrow> state \<Rightarrow> (jsval \<times> bool) comp \<times> state" where
  "branch h data s = (case m_type data of
      MPrepare \<Rightarrow>
        andThen (resolveLocal (m_from data) NoKind s) (\<lambda>from s1.
        andThen (resolveKey data s1) (\<lambda>k s2.
        andThen (Reflect_get h from k s2) (\<lambda>value s3. (Return (value, False), s3))))
    | MAssign \<Rightarrow>
        andThen (resolveLocal (m_from data) NoKind s) (\<lambda>from s1.
        andThen (unpackAll [m_value data] s1) (\<lambda>vs s2.
        andThen (resolveKey data s2) (\<lambda>k s3.
        andThen (Reflect_set h from k (case vs of [] \<Rightarrow> Undefined | v # rest \<Rightarrow> v) s3) (\<lambda>u s4.
        (Return (case vs of [] \<Rightarrow> Undefined | v # rest \<Rightarrow> v, False), s4)))))
    | MDelete \<Rightarrow>
        andThen (resolveLocal (m_from data) NoKind s) (\<lambda>from s1.
        andThen (resolveKey data s1) (\<lambda>k s2.
        andThen (Reflect_deleteProperty h from k s2) (\<lambda>u s3. (Return (Undefined, False), s3))))
    | MApply \<Rightarrow>
        andThen (resolveLocal (m_from data) (KTag ''function'') s) (\<lambda>from s1.
        case m_args data of
          None \<Rightarrow> throwNew ''TypeError'' ''Arguments are not defined.'' s1
        | Some args \<Rightarrow>
            andThen (unpackAll (m_thisArg data # args) s1) (\<lambda>vs s2.
            andThen (Reflect_apply h from
                       (case vs of [] \<Rightarrow> Undefined | v # rest \<Rightarrow> v)
                       (case vs of [] \<Rightarrow> [] | v # rest \<Rightarrow> rest) s2) (\<lambda>value s3.
            (Return (value, False), s3))))
    | MConstruct \<Rightarrow>
        andThen (resolveLocal (m_from data) (KCtor CFunction) s) (\<lambda>from s1.
        case m_args data of
          None \<Rightarrow> throwNew ''TypeError'' ''Arguments are not defined.'' s1
        | Some args \<Rightarrow>
            andThen (unpackAll args s1) (\<lambda>vs s2.
            andThen (Reflect_construct h from vs s2) (\<lambda>value s3.
            (Return (value, False), s3))))
    | MResolve \<Rightarrow>
        andThen (resolveLocal (m_from data) NoKind s) (\<lambda>value s1. (Return (value, True), s1))
    | MSuccess \<Rightarrow>
        andThen (popResolver (m_token data) s) (\<lambda>resolver s1.
        case resolver of
          None \<Rightarrow> (Return (Undefined, False), s1)
        | Some p \<Rightarrow>
            andThen (unpack (m_value data) s1) (\<lambda>v s2.
            (Return (Undefined, False), resolveFn p v s2)))
    | MFailed \<Rightarrow>
        andThen (popResolver (m_token data) s) (\<lambda>resolver s1.
        case resolver of
          None \<Rightarrow> (Return (Undefined, False), s1)
        | Some p \<Rightarrow>
            andThen (unpack (m_reason data) s1) (\<lambda>v s2.
            (Return (Undefined, False), rejectFn p v s2))))"

text \<open>The two statements after the \<^verbatim>\<open>switch\<close>, still inside \<^verbatim>\<open>try\<close>.\<close>

definition respond :: "message \<Rightarrow> jsval \<times> bool \<Rightarrow> state \<Rightarrow> unit comp \<times> state" where
  "respond data vc s = (case vc of (value, clone) \<Rightarrow>
     andThen (case m_into data of
                None \<Rightarrow> (Return (), s)
              | Some i \<Rightarrow> storeLocal (Some i) value s) (\<lambda>u s1.
     case m_token data of
       None \<Rightarrow> (Return (), s1)
     | Some t \<Rightarrow>
         andThen (pack value clone s1) (\<lambda>pv s2.
         send ((msg MSuccess)\<lparr>m_token := Some t, m_value := pv\<rparr>) s2)))"

text \<open>The \<^verbatim>\<open>catch\<close> clause.\<close>

definition recover :: "message \<Rightarrow> jsval \<Rightarrow> state \<Rightarrow> unit comp \<times> state" where
  "recover data e s = (case m_token data of
      None \<Rightarrow> (Return (), s)
    | Some t \<Rightarrow>
        andThen (pack e False s) (\<lambda>pe s1.
        send ((msg MFailed)\<lparr>m_token := Some t, m_reason := pe\<rparr>) s1))"

definition onReceive :: "host \<Rightarrow> message \<Rightarrow> state \<Rightarrow> unit comp \<times> state" where
  "onReceive h data s = (case andThen (branch h data s) (respond data) of
      (Throw e, s1) \<Rightarrow> recover data e s1
    | r \<Rightarrow> r)"

section \<open>Disposal\<close>

definition revoke :: "ref \<Rightarrow> state \<Rightarrow> state" where
  "revoke p s = s\<lparr>heap := (heap s)(p \<mapsto> ProxyObj True)\<rparr>"

text \<open>
  \<^verbatim>\<open>dispose\<close>: every callback is run, then every own property of the instance is
  deleted. On an instance already disposed, \<^verbatim>\<open>this.disposableCallbacks.values()\<close> raises.
\<close>

definition dispose :: "state \<Rightarrow> unit comp \<times> state" where
  "dispose s =
     (if disposed s then deletedField s
      else (Return (),
        (fold revoke (disposableCallbacks s) s)\<lparr>disposed := True, resolvers := Map.empty,
           solidObjects := {}, disposableCallbacks := [], key2Obj := Map.empty,
           obj2Key := Map.empty, key2Sym := Map.empty, sym2Key := Map.empty\<rparr>))"

text \<open>A fresh endpoint over a fresh \<^verbatim>\<open>SharedArrayBuffer(4)\<close>, as \<^verbatim>\<open>load\<close> makes it.\<close>

definition init :: state where
  "init = \<lparr>disposed = False, resolvers = Map.empty, solidObjects = {},
     disposableCallbacks = [], key2Obj = Map.empty, obj2Key = Map.empty,
     key2Sym = Map.empty, sym2Key = Map.empty, counter = 0, outbox = [],
     heap = Map.empty, next_ref = 0, next_sym = 0, cache = Map.empty,
     globalSolidObjects = {}\<rparr>"

section \<open>Notions used in the statements\<close>

text \<open>The tables of a state: everything but the object store and its allocator.\<close>

definition tablesOf :: "state \<Rightarrow> state" where
  "tablesOf s = s\<lparr>heap := Map.empty, next_ref := 0\<rparr>"

text \<open>A token the registry knows.\<close>

definition known :: "state \<Rightarrow> token option \<Rightarrow> bool" where
  "known s i = (case i of None \<Rightarrow> False | Some k \<Rightarrow> key2Obj s k \<noteq> None)"

text \<open>A shadow proxy that has been revoked.\<close>

definition revokedHandle :: "state \<Rightarrow> jsval \<Rightarrow> bool" where
  "revokedHandle s v = (case v of Ref r \<Rightarrow> heap s r = Some (ProxyObj True) | _ \<Rightarrow> False)"

text \<open>A value a promise locks onto instead of being fulfilled with it.\<close>

definition thenable :: "state \<Rightarrow> jsval \<Rightarrow> bool" where
  "thenable s v = (case v of
      Ref r \<Rightarrow> (case heap s r of
          Some (PromiseObj st) \<Rightarrow> True
        | Some (ProxyObj revoked) \<Rightarrow> True
        | _ \<Rightarrow> False)
    | _ \<Rightarrow> False)"

text \<open>A reference below the allocator, or a value that is no reference.\<close>

definition allocated :: "state \<Rightarrow> jsval \<Rightarrow> bool" where
  "allocated s v = (case v of Ref r \<Rightarrow> r < next_ref s | _ \<Rightarrow> True)"

text \<open>The call raised a \<^verbatim>\<open>TypeError\<close>.\<close>

definition raisesTypeError :: "'a comp \<times> state \<Rightarrow> bool" where
  "raisesTypeError r = (case r of
      (Throw (Ref e), s) \<Rightarrow> (case heap s e of
          Some (ErrorObj n m k) \<Rightarrow> n = Str ''TypeError''
        | _ \<Rightarrow> False)
    | _ \<Rightarrow> False)"

text \<open>\<open>n\<close> calls of \<^verbatim>\<open>resolveRemote(token)\<close> one after the other, with their outcomes.\<close>

fun resolveRemoteMany :: "nat \<Rightarrow> token \<Rightarrow> state \<Rightarrow> jsval comp list \<times> state" where
  "resolveRemoteMany 0 t s = ([], s)"
| "resolveRemoteMany (Suc n) t s =
     (case resolveRemote t False s of (r, s1) \<Rightarrow>
      (case resolveRemoteMany n t s1 of (rs, s2) \<Rightarrow> (r # rs, s2)))"

section \<open>Sample programs and states\<close>

text \<open>A program whose objects do nothing, and one whose functions add two numbers.\<close>

definition idle :: host where
  "idle = \<lparr>hostGet = (\<lambda>r k s. (Return Undefined, s)),
     hostSet = (\<lambda>r k v s. (Return True, s)),
     hostDelete = (\<lambda>r k s. (Return True, s)),
     hostApply = (\<lambda>r t args s. (Return Undefined, s)),
     hostConstruct = (\<lambda>r args s. (Return Undefined, s)),
     functionHas = (\<lambda>k. False),
     functionGet = (\<lambda>k. Undefined)\<rparr>"

definition adder :: host where
  "adder = idle\<lparr>hostApply := (\<lambda>r t args s.
     (case args of
        [Num a, Num b] \<Rightarrow> (Return (Num (a + b)), s)
      | _ \<Rightarrow> (Return Undefined, s)))\<rparr>"

text \<open>A fresh endpoint beside one plain object, and beside one \<^verbatim>\<open>Error\<close>.\<close>

definition plainState :: state where
  "plainState = init\<lparr>heap := [0 \<mapsto> Ordinary False [CObject]], next_ref := 1\<rparr>"

definition errorState :: state where
  "errorState = init\<lparr>heap := [0 \<mapsto> ErrorObj (Str ''Error'') (Str ''boom'') Undefined],
     next_ref := 1\<rparr>"

text \<open>An endpoint that has stored the number 42 under token 1.\<close>

definition boundState :: state where
  "boundState = init\<lparr>heap := [0 \<mapsto> PromiseObj (Fulfilled (Num 42))], next_ref := 1,
     key2Obj := [1 \<mapsto> 0]\<rparr>"

text \<open>An endpoint that has registered a function under token 0, as a worker does.\<close>

definition served :: state where
  "served = init\<lparr>heap := [0 \<mapsto> Ordinary True [CFunction, CObject],
       1 \<mapsto> PromiseObj (Fulfilled (Ref 0))],
     next_ref := 2, key2Obj := [0 \<mapsto> 1], obj2Key := [0 \<mapsto> 0]\<rparr>"

text \<open>
  Three messages for that endpoint: a call of the function with 1 and 2, its result to be
  stored under token 9 and reported under token 5; a call through the unregistered token
  99; a \<^verbatim>\<open>delete\<close> that asks for no reply.
\<close>

definition sumRequest :: message where
  "sumRequest = (msg MApply)\<lparr>m_from := Some 0, m_args := Some [Raw (Num 1), Raw (Num 2)],
     m_into := Some 9, m_token := Some 5\<rparr>"

definition lostRequest :: message where
  "lostRequest = (msg MApply)\<lparr>m_from := Some 99, m_args := Some [], m_token := Some 5\<rparr>"

definition silentDelete :: message where
  "silentDelete = (msg MDelete)\<lparr>m_from := Some 0, m_key := Some (KStr ''x'')\<rparr>"

text \<open>
  A fresh endpoint that has sent one request, for the bootstrap token 0, and waits for
  the reply under token 1; the reply, a refusal, and what the dispatcher sends back.
\<close>

definition waiting :: state where
  "waiting = snd (sendAndWait ((msg MResolve)\<lparr>m_from := Some 0\<rparr>) init)"

definition answer :: message where
  "answer = (msg MSuccess)\<lparr>m_token := Some 1, m_value := Raw (Num 42)\<rparr>"

definition refusal :: message where
  "refusal = (msg MFailed)\<lparr>m_token := Some 1, m_reason := Raw (Str ''no'')\<rparr>"

definition echo :: message where
  "echo = (msg MSuccess)\<lparr>m_token := Some 1\<rparr>"

text \<open>A reply whose value is a reference to the remote token 3.\<close>

definition handleAnswer :: message where
  "handleAnswer = (msg MSuccess)\<lparr>m_token := Some 1, m_value := PackedToken Shadow 3\<rparr>"

text \<open>
  An endpoint that has registered a plain object under token 1; a \<^verbatim>\<open>prepare\<close> message
  that reads its property \<^verbatim>\<open>x\<close>, the result to be stored under token 9 and reported
  under token 5; and a \<^verbatim>\<open>prepare\<close> message that reads from token 9.
\<close>

definition exported :: state where
  "exported = snd (registerToken (Ref 0) (Some 1) plainState)"

definition propertyRead :: message where
  "propertyRead = (msg MPrepare)\<lparr>m_from := Some 1, m_key := Some (KStr ''x''),
     m_into := Some 9, m_token := Some 5\<rparr>"

definition followUp :: message where
  "followUp = (msg MPrepare)\<lparr>m_from := Some 9, m_key := Some (KStr ''x''),
     m_token := Some 6\<rparr>"

section \<open>Steps of a live endpoint\<close>

lemma tablesOf_fields [simp]:
  "disposed (tablesOf s) = disposed s" "resolvers (tablesOf s) = resolvers s"
  "solidObjects (tablesOf s) = solidObjects s"
  "disposableCallbacks (tablesOf s) = disposableCallbacks s"
  "key2Obj (tablesOf s) = key2Obj s" "obj2Key (tablesOf s) = obj2Key s"
  "key2Sym (tablesOf s) = key2Sym s" "sym2Key (tablesOf s) = sym2Key s"
  "counter (tablesOf s) = counter s" "outbox (tablesOf s) = outbox s"
  "next_sym (tablesOf s) = next_sym s" "cache (tablesOf s) = cache s"
  "globalSolidObjects (tablesOf s) = globalSolidObjects s"
  by (simp_all add: tablesOf_def)

lemma tables_eqD:
  assumes "tablesOf a = tablesOf b"
  shows "disposed a = disposed b" "resolvers a = resolvers b"
    "solidObjects a = solidObjects b" "disposableCallbacks a = disposableCallbacks b"
    "key2Obj a = key2Obj b" "obj2Key a = obj2Key b" "key2Sym a = key2Sym b"
    "sym2Key a = sym2Key b" "counter a = counter b" "outbox a = outbox b"
    "next_sym a = next_sym b" "cache a = cache b"
    "globalSolidObjects a = globalSolidObjects b"
  using arg_cong [OF assms, of disposed] arg_cong [OF assms, of resolvers]
    arg_cong [OF assms, of solidObjects] arg_cong [OF assms, of disposableCallbacks]
    arg_cong [OF assms, of key2Obj] arg_cong [OF assms, of obj2Key]
    arg_cong [OF assms, of key2Sym] arg_cong [OF assms, of sym2Key]
    arg_cong [OF assms, of counter] arg_cong [OF assms, of outbox]
    arg_cong [OF assms, of next_sym] arg_cong [OF assms, of cache]
    arg_cong [OF assms, of globalSolidObjects]
  by simp_all

text \<open>Settling a promise touches the object store only.\<close>

lemma setPromise_tables: "tablesOf (setPromise p st s) = tablesOf s"
  by (simp add: tablesOf_def setPromise_def)

lemma rejectNew_tables: "tablesOf (rejectNew p n m s) = tablesOf s"
  by (simp add: tablesOf_def rejectNew_def newError_def setPromise_def)

lemma resolveFn_tables: "tablesOf (resolveFn p v s) = tablesOf s"
  by (simp add: resolveFn_def setPromise_tables rejectNew_tables
        split: option.splits obj.splits pstate.splits jsval.splits)

lemma rejectFn_tables: "tablesOf (rejectFn p v s) = tablesOf s"
  by (simp add: rejectFn_def setPromise_tables
        split: option.splits obj.splits pstate.splits)

lemma resolveFn_promise:
  "heap s p = Some (PromiseObj Pending) \<Longrightarrow> \<exists>st. heap (resolveFn p v s) p = Some (PromiseObj st)"
  by (simp add: resolveFn_def setPromise_def rejectNew_def newError_def
        split: option.splits obj.splits pstate.splits jsval.splits)

lemma promiseResolve_tables: "tablesOf (snd (promiseResolve v s)) = tablesOf s"
  by (simp add: promiseResolve_def Let_def newPromise_def resolveFn_tables
        split: option.splits obj.splits jsval.splits)
     (simp add: tablesOf_def)

lemma promiseResolve_promise:
  "\<exists>st. heap (snd (promiseResolve v s)) (fst (promiseResolve v s)) = Some (PromiseObj st)"
  by (simp add: promiseResolve_def Let_def newPromise_def resolveFn_promise
        split: option.splits obj.splits jsval.splits)

lemma promiseResolve_fulfilled:
  assumes "allocated s v" and "\<not> thenable s v"
  shows "fst (promiseResolve v s) = next_ref s"
    and "heap (snd (promiseResolve v s)) (next_ref s) = Some (PromiseObj (Fulfilled v))"
  using assms
  by (auto simp: promiseResolve_def Let_def newPromise_def resolveFn_def setPromise_def
        thenable_def allocated_def split: jsval.splits option.splits obj.splits)

text \<open>The registry and the transport, on an endpoint that is not disposed.\<close>

lemma aquireToken_live:
  "\<not> disposed s \<Longrightarrow>
   aquireToken s = (Return (uint (counter s) + 1), s\<lparr>counter := counter s + 1\<rparr>)"
  by (simp add: aquireToken_def)

lemma send_live:
  "\<not> disposed s \<Longrightarrow> send m s = (Return (), s\<lparr>outbox := outbox s @ [m]\<rparr>)"
  by (simp add: send_def)

lemma storeLocal_live:
  assumes "\<not> disposed s"
  shows "\<exists>s'. storeLocal (Some i) v s = (Return (), s')
     \<and> key2Obj s' = (key2Obj s)(i \<mapsto> fst (promiseResolve v s))
     \<and> obj2Key s' = (case v of Ref r \<Rightarrow> (obj2Key s)(r \<mapsto> i) | _ \<Rightarrow> obj2Key s)
     \<and> heap s' = heap (snd (promiseResolve v s))
     \<and> next_ref s' = next_ref (snd (promiseResolve v s))
     \<and> outbox s' = outbox s \<and> \<not> disposed s' \<and> cache s' = cache s
     \<and> resolvers s' = resolvers s"
proof -
  obtain p s1 where pr: "promiseResolve v s = (p, s1)" by (cases "promiseResolve v s")
  have t: "tablesOf s1 = tablesOf s" using promiseResolve_tables [of v s] by (simp add: pr)
  note f = tables_eqD [OF t]
  show ?thesis
    using assms by (simp add: storeLocal_def pr f split: jsval.splits)
qed

lemma fromSymbol_live:
  assumes "\<not> disposed s"
  shows "\<exists>k s'. fromSymbol y s = (Return k, s') \<and> key2Obj s' = key2Obj s
     \<and> outbox s' = outbox s \<and> \<not> disposed s' \<and> heap s' = heap s"
  using assms
  by (simp add: fromSymbol_def aquireToken_live andThen_def split: symbol.splits option.splits)

lemma instanceOf_cases:
  "(\<exists>b. instanceOf v c s = (Return b, s))
   \<or> (\<exists>r. v = Ref r \<and> heap s r = Some (ProxyObj True)
        \<and> instanceOf v c s = (revokedProxy s :: bool comp \<times> state))"
  by (auto simp: instanceOf_def split: jsval.splits option.splits obj.splits)

lemma isSolid_live:
  "\<not> disposed s \<Longrightarrow> \<exists>b. isSolid v s = (Return b, s)"
  by (auto simp: isSolid_def split: jsval.splits)

lemma registerToken_known:
  assumes "\<not> disposed s" and "obj2Key s r \<noteq> None \<or> cache s r \<noteq> None"
  shows "\<exists>k. registerToken (Ref r) None s = (Return k, s)"
  using assms
  by (auto simp: registerToken_def WrapperHandler_get_def split: option.splits)

lemma registerToken_live:
  assumes live: "\<not> disposed s"
  shows "\<exists>k s'. registerToken v None s = (Return k, s') \<and> outbox s' = outbox s
     \<and> \<not> disposed s'"
proof (cases "WrapperHandler_get s v")
  case (Some w)
  then show ?thesis using live by (simp add: registerToken_def)
next
  case None
  show ?thesis
  proof (cases "case v of Ref r \<Rightarrow> obj2Key s r | _ \<Rightarrow> None")
    case (Some k)
    then show ?thesis using live None by (simp add: registerToken_def)
  next
    case none: None
    let ?s1 = "s\<lparr>counter := counter s + 1\<rparr>"
    have l1: "\<not> disposed ?s1" using live by simp
    from storeLocal_live [OF l1, of "uint (counter s) + 1" v] obtain s2 where
      "storeLocal (Some (uint (counter s) + 1)) v ?s1 = (Return (), s2)"
      "outbox s2 = outbox ?s1" "\<not> disposed s2" by blast
    then show ?thesis
      using live None none
      by (simp add: registerToken_def aquireToken_live andThen_def)
  qed
qed

text \<open>Packing.\<close>

lemma pack_error:
  "heap s e = Some (ErrorObj n m k) \<Longrightarrow> pack (Ref e) c s = (Return (PackedError n m k), s)"
  by (simp add: pack_def instanceOf_def andThen_def errorFields_def)

lemma pack_registered:
  assumes live: "\<not> disposed s"
    and reg: "case v of Ref r \<Rightarrow> obj2Key s r \<noteq> None \<or> cache s r \<noteq> None | _ \<Rightarrow> True"
  shows "(\<exists>pv s'. pack v c s = (Return pv, s') \<and> key2Obj s' = key2Obj s
            \<and> outbox s' = outbox s \<and> \<not> disposed s' \<and> heap s' = heap s)
       \<or> (\<exists>e n m k s'. pack v c s = (Throw (Ref e), s') \<and> key2Obj s' = key2Obj s
            \<and> outbox s' = outbox s \<and> \<not> disposed s' \<and> heap s' e = Some (ErrorObj n m k))"
proof (cases v)
  case (Sym y)
  then show ?thesis
    using fromSymbol_live [OF live, of y] by (auto simp: pack_def andThen_def)
next
  case (Ref r)
  with reg have known: "obj2Key s r \<noteq> None \<or> cache s r \<noteq> None" by simp
  from instanceOf_cases [of v CError s] show ?thesis
  proof
    assume "\<exists>b. instanceOf v CError s = (Return b, s)"
    then obtain b where i: "instanceOf (Ref r) CError s = (Return b, s)" using Ref by auto
    obtain sol where so: "isSolid (Ref r) s = (Return sol, s)"
      using isSolid_live [OF live] by blast
    obtain k where rt: "registerToken (Ref r) None s = (Return k, s)"
      using registerToken_known [OF live known] by blast
    show ?thesis
      using live by (simp add: Ref pack_def andThen_def i so rt)
  next
    assume "\<exists>q. v = Ref q \<and> heap s q = Some (ProxyObj True)
        \<and> instanceOf v CError s = (revokedProxy s :: bool comp \<times> state)"
    then have i: "instanceOf (Ref r) CError s = (revokedProxy s :: bool comp \<times> state)"
      using Ref by auto
    show ?thesis
      using live by (simp add: Ref pack_def andThen_def i revokedProxy_def throwNew_def)
  qed
qed (simp_all add: pack_def assms)

lemma pack_live:
  assumes live: "\<not> disposed s" and ok: "\<not> revokedHandle s v"
  shows "\<exists>pv s'. pack v c s = (Return pv, s') \<and> outbox s' = outbox s \<and> \<not> disposed s'"
proof (cases v)
  case (Sym y)
  then show ?thesis
    using fromSymbol_live [OF live, of y] by (auto simp: pack_def andThen_def)
next
  case (Ref r)
  from instanceOf_cases [of v CError s] ok Ref
  obtain b where i: "instanceOf (Ref r) CError s = (Return b, s)"
    by (auto simp: revokedHandle_def)
  obtain sol where so: "isSolid (Ref r) s = (Return sol, s)"
    using isSolid_live [OF live] by blast
  obtain k s' where rt: "registerToken (Ref r) None s = (Return k, s')"
    "outbox s' = outbox s" "\<not> disposed s'"
    using registerToken_live [OF live] by blast
  show ?thesis
    using live by (simp add: Ref pack_def andThen_def i so rt)
qed (simp_all add: pack_def assms)

text \<open>Remote resolution: a hit and a miss of the table.\<close>

lemma resolveRemote_hit:
  "\<not> disposed s \<Longrightarrow> key2Obj s t = Some p \<Longrightarrow> resolveRemote t False s = (Return (Ref p), s)"
  by (simp add: resolveRemote_def)

lemma resolveRemoteMany_hit:
  "\<not> disposed s \<Longrightarrow> key2Obj s t = Some p \<Longrightarrow>
   resolveRemoteMany n t s = (replicate n (Return (Ref p)), s)"
  by (induction n) (simp_all add: resolveRemote_hit)

lemma resolveRemote_miss:
  assumes "\<not> disposed s" and "key2Obj s t = None"
  shows "\<exists>s1. resolveRemote t False s = (Return (Ref (next_ref s)), s1)
     \<and> outbox s1 = outbox s @ [(msg MResolve)\<lparr>m_from := Some t,
          m_token := Some (uint (counter s) + 1)\<rparr>]
     \<and> key2Obj s1 t = Some (next_ref s) \<and> \<not> disposed s1
     \<and> heap s1 (next_ref s) = Some (PromiseObj Pending)
     \<and> resolvers s1 (uint (counter s) + 1) = Some (next_ref s)"
  using assms
  by (simp add: resolveRemote_def sendAndWait_def newPromise_def aquireToken_def send_def
        andThen_def)

text \<open>Disposal.\<close>

lemma heap_fold_revoke:
  "heap (fold revoke ps s) p = (if p \<in> set ps then Some (ProxyObj True) else heap s p)"
  by (induction ps arbitrary: s) (auto simp: revoke_def)

lemma dispose_live:
  assumes "\<not> disposed s"
  shows "\<exists>s'. dispose s = (Return (), s') \<and> disposed s'
     \<and> heap s' = heap (fold revoke (disposableCallbacks s) s)"
  using assms by (simp add: dispose_def)

lemma raises_revoked: "raisesTypeError (revokedProxy s :: 'a comp \<times> state)"
  by (simp add: raisesTypeError_def revokedProxy_def throwNew_def)

lemma raises_deleted: "raisesTypeError (deletedField s :: 'a comp \<times> state)"
  by (simp add: raisesTypeError_def deletedField_def throwNew_def)

text \<open>Unpacking, and the statements after the \<^verbatim>\<open>switch\<close> for an undefined value.\<close>

lemma unpack_live:
  assumes "\<not> disposed s"
  shows "\<exists>v s'. unpack x s = (Return v, s') \<and> \<not> disposed s'
     \<and> next_ref s \<le> next_ref s'
     \<and> (\<forall>q. q < next_ref s \<longrightarrow> heap s' q = heap s q)
     \<and> (\<forall>t q. q < next_ref s \<longrightarrow> resolvers s' t = Some q \<longrightarrow> resolvers s t = Some q)"
proof (cases x)
  case (Raw v)
  then show ?thesis using assms by (simp add: unpack_def)
next
  case (PackedToken ty k)
  then show ?thesis
    using assms
    by (auto simp: unpack_def resolveRemote_def createShadow_def onDispose_def
          sendAndWait_def newPromise_def aquireToken_def send_def andThen_def Let_def
          split: option.splits)
next
  case (PackedSymbol k)
  then show ?thesis
    using assms
    by (auto simp: unpack_def toSymbol_def andThen_def split: key.splits option.splits)
next
  case (PackedValue v)
  then show ?thesis using assms by (simp add: unpack_def)
next
  case (PackedError n m k)
  then show ?thesis using assms by (simp add: unpack_def)
qed

lemma pack_undefined: "pack Undefined c s = (Return (Raw Undefined), s)"
  by (simp add: pack_def)

lemma promiseResolve_undefined:
  "fst (promiseResolve Undefined s) = next_ref s"
  "heap (snd (promiseResolve Undefined s)) = (heap s)(next_ref s \<mapsto> PromiseObj (Fulfilled Undefined))"
  by (simp_all add: promiseResolve_def Let_def newPromise_def resolveFn_def setPromise_def)

lemma respond_undefined:
  assumes live: "\<not> disposed s"
  shows "\<exists>s'. respond data (Undefined, False) s = (Return (), s')
     \<and> resolvers s' = resolvers s
     \<and> (\<forall>q. q < next_ref s \<longrightarrow> heap s' q = heap s q)
     \<and> outbox s' = outbox s @ (case m_token data of
          None \<Rightarrow> []
        | Some t \<Rightarrow> [(msg MSuccess)\<lparr>m_token := Some t, m_value := Raw Undefined\<rparr>])"
proof (cases "m_into data")
  case None
  then show ?thesis
    using live
    by (simp add: respond_def andThen_def pack_undefined send_live split: option.splits)
next
  case (Some i)
  from storeLocal_live [OF live, of i Undefined] obtain s1 where
    st: "storeLocal (Some i) Undefined s = (Return (), s1)"
    and hp: "heap s1 = heap (snd (promiseResolve Undefined s))"
    and ob: "outbox s1 = outbox s" and l1: "\<not> disposed s1"
    and rs: "resolvers s1 = resolvers s" by blast
  have old: "\<forall>q. q < next_ref s \<longrightarrow> heap s1 q = heap s q"
    by (simp add: hp promiseResolve_undefined)
  show ?thesis
    using old rs ob
    by (simp add: respond_def Some st andThen_def pack_undefined send_live [OF l1]
          split: option.splits)
qed


lemma resolveFn_next: "next_ref s \<le> next_ref (resolveFn p v s)"
  by (simp add: resolveFn_def setPromise_def rejectNew_def newError_def
        split: option.splits obj.splits pstate.splits jsval.splits)

lemma resolveFn_fulfilled:
  assumes "heap s p = Some (PromiseObj Pending)" and "\<not> thenable s v"
  shows "heap (resolveFn p v s) p = Some (PromiseObj (Fulfilled v))"
proof (cases v)
  case (Ref r)
  have ne: "r \<noteq> p"
    using assms Ref by (auto simp: thenable_def)
  show ?thesis
  proof (cases "heap s r")
    case None
    then show ?thesis using assms(1) ne Ref by (simp add: resolveFn_def setPromise_def)
  next
    case (Some ob)
    then show ?thesis
      using assms ne Ref
      by (cases ob) (simp_all add: resolveFn_def setPromise_def thenable_def)
  qed
qed (simp_all add: resolveFn_def setPromise_def assms(1))

lemma resolveFn_following:
  assumes "heap s p = Some (PromiseObj Pending)" and "thenable s v"
    and "\<not> revokedHandle s v" and "v \<noteq> Ref p"
  shows "heap (resolveFn p v s) p = Some (PromiseObj (Following v))"
proof (cases v)
  case (Ref r)
  have ne: "r \<noteq> p" using assms(4) Ref by simp
  show ?thesis
  proof (cases "heap s r")
    case None
    then show ?thesis using assms(2) Ref by (simp add: thenable_def)
  next
    case (Some ob)
    then show ?thesis
      using assms ne Ref
      by (cases ob)
         (simp_all add: resolveFn_def setPromise_def thenable_def revokedHandle_def)
  qed
qed (use assms(2) in \<open>simp_all add: thenable_def\<close>)

lemma rejectFn_rejected:
  assumes "heap s p = Some (PromiseObj Pending)"
  shows "heap (rejectFn p v s) p = Some (PromiseObj (Rejected v))"
    and "next_ref (rejectFn p v s) = next_ref s"
  using assms by (simp_all add: rejectFn_def setPromise_def)

lemma popResolver_hit:
  "\<not> disposed s \<Longrightarrow> resolvers s t = Some p \<Longrightarrow>
   popResolver (Some t) s = (Return (Some p), s\<lparr>resolvers := (resolvers s)(t := None)\<rparr>)"
  by (simp add: popResolver_def)

lemma popResolver_miss:
  "\<not> disposed s \<Longrightarrow> (case tok of None \<Rightarrow> True | Some t \<Rightarrow> resolvers s t = None) \<Longrightarrow>
   popResolver tok s = (Return None, s)"
  by (auto simp: popResolver_def split: option.splits)

text \<open>The waiting endpoint, spelled out.\<close>

lemma waiting_state:
  "waiting = init\<lparr>heap := [0 \<mapsto> PromiseObj Pending], next_ref := 1, counter := 1,
     resolvers := [1 \<mapsto> 0],
     outbox := [(msg MResolve)\<lparr>m_from := Some 0, m_token := Some 1\<rparr>]\<rparr>"
  by (simp add: waiting_def sendAndWait_def newPromise_def aquireToken_def send_def
        andThen_def init_def)

lemma waiting_facts:
  "\<not> disposed waiting" "resolvers waiting 1 = Some 0"
  "heap waiting 0 = Some (PromiseObj Pending)" "0 < next_ref waiting"
  "resolvers waiting 77 = None"
  by (simp_all add: waiting_state init_def)

text \<open>The exporting endpoint, spelled out.\<close>

lemma exported_state:
  "exported = init\<lparr>heap := [0 \<mapsto> Ordinary False [CObject],
       1 \<mapsto> PromiseObj (Fulfilled (Ref 0))],
     next_ref := 2, key2Obj := [1 \<mapsto> 1], obj2Key := [0 \<mapsto> 1]\<rparr>"
  by (simp add: exported_def registerToken_def WrapperHandler_get_def storeLocal_def
        promiseResolve_def newPromise_def resolveFn_def setPromise_def andThen_def Let_def
        plainState_def init_def)

section \<open>Token uniqueness\<close>

lemma aquireTokens_live:
  "\<not> disposed s \<Longrightarrow> aquireTokens n s =
     (Return (map (\<lambda>k. uint (counter s + of_nat k) + 1) [0..<n]),
      s\<lparr>counter := counter s + of_nat n\<rparr>)"
proof (induction n arbitrary: s)
  case 0
  then show ?case by simp
next
  case (Suc n)
  have step: "aquireToken s = (Return (uint (counter s) + 1), s\<lparr>counter := counter s + 1\<rparr>)"
    using Suc.prems by (simp add: aquireToken_def)
  have live: "\<not> disposed (s\<lparr>counter := counter s + 1\<rparr>)"
    using Suc.prems by simp
  have shift: "map (\<lambda>k. uint (counter s + of_nat k) + 1) [0..<Suc n] =
      (uint (counter s) + 1) # map (\<lambda>k. uint (counter s + 1 + of_nat k) + 1) [0..<n]"
    by (simp add: upt_conv_Cons map_Suc_upt [symmetric] add.assoc del: upt_Suc)
  show ?case
    unfolding aquireTokens.simps step andThen_def
    by (simp add: Suc.IH [OF live] shift add.assoc del: upt_Suc)
qed

lemma token_inj:
  assumes "j < 2 ^ 32" "k < 2 ^ 32"
    and "uint (c + of_nat j :: 32 word) + 1 = uint (c + of_nat k :: 32 word) + 1"
  shows "j = k"
proof -
  from assms(3) have "uint (c + of_nat j) = uint (c + of_nat k)" by simp
  then have "c + of_nat j = c + of_nat k" by (simp only: word_uint_eq_iff)
  then have "(of_nat j :: 32 word) = of_nat k" by simp
  then have "take_bit 32 j = take_bit 32 k" by (simp add: word_of_nat_eq_iff)
  with assms(1,2) show ?thesis by (simp add: take_bit_nat_eq_self)
qed

text \<open>
  C9 (as amended). On an endpoint that is not disposed, \<open>n\<close> calls of \<^verbatim>\<open>aquireToken\<close>
  one after the other, for any \<open>n\<close> up to \<open>2^32\<close>, all return, and return \<open>n\<close> pairwise
  distinct integers between \<open>1\<close> and \<open>2^32\<close>.
\<close>

theorem aquireToken_distinct:
  assumes "\<not> disposed s" and "n \<le> 2 ^ 32"
  shows "\<exists>ts s'. aquireTokens n s = (Return ts, s') \<and> length ts = n \<and> distinct ts
           \<and> list_all (\<lambda>t. 1 \<le> t \<and> t \<le> 2 ^ 32) ts"
proof -
  let ?f = "\<lambda>k. uint (counter s + of_nat k) + 1"
  have "inj_on ?f (set [0..<n])"
    using assms(2) by (intro inj_onI token_inj) auto
  then have d: "distinct (map ?f [0..<n])" by (simp add: distinct_map)
  have r: "list_all (\<lambda>t. 1 \<le> t \<and> t \<le> 2 ^ 32) (map ?f [0..<n])"
  proof -
    have "\<And>w :: 32 word. uint w + 1 \<le> 2 ^ 32"
    proof -
      fix w :: "32 word"
      have "uint w < 2 ^ 32" using uint_bounded [of w] by simp
      then show "uint w + 1 \<le> 2 ^ 32" by simp
    qed
    then show ?thesis by (simp add: list_all_iff)
  qed
  show ?thesis
    using aquireTokens_live [OF assms(1), of n] d r by simp
qed

text \<open>Three calls on a fresh endpoint.\<close>

theorem aquireToken_distinct_witness:
  "\<exists>ts s'. aquireTokens 3 init = (Return ts, s') \<and> length ts = 3 \<and> distinct ts
           \<and> list_all (\<lambda>t. 1 \<le> t \<and> t \<le> 2 ^ 32) ts"
  using aquireToken_distinct [of init 3] by (simp add: init_def)

text \<open>
  C9 as stated fails for \<open>n = 2^32 + 1\<close>: the cell has wrapped to \<open>0\<close>, and the last call
  returns the token of the first.
\<close>

theorem aquireToken_wraps:
  "(case fst (aquireTokens 4294967297 init) of
      Return ts \<Rightarrow> length ts = 4294967297 \<and> ts ! 0 = ts ! 4294967296 \<and> \<not> distinct ts
    | _ \<Rightarrow> False)"
proof -
  let ?f = "\<lambda>k. uint ((0 :: 32 word) + of_nat k) + 1"
  let ?ts = "map ?f [0..<4294967297]"
  have live: "\<not> disposed init" by (simp add: init_def)
  have run: "fst (aquireTokens 4294967297 init) = Return ?ts"
    using aquireTokens_live [OF live, of 4294967297] by (simp add: init_def)
  have e: "?ts ! 0 = ?ts ! 4294967296"
    by (simp del: upt_Suc)
  have "\<not> distinct ?ts"
  proof
    assume "distinct ?ts"
    then have "(0::nat) = 4294967296"
      using e by (simp only: nth_eq_iff_index_eq [of ?ts 0 4294967296] length_map length_upt)
    then show False by simp
  qed
  with run e show ?thesis by (simp del: upt_Suc)
qed

section \<open>Handle identity\<close>

text \<open>
  C4 (as amended). On an endpoint that is not disposed, resolving a token as a shadowed
  handle makes a new handle every time: two resolutions of the same token, one after the
  other, return two different proxies, both live, both bound to that token in
  \<^verbatim>\<open>WrapperHandler.cache\<close>, both registered for revocation. The library keeps no table
  from tokens to handles.
\<close>

theorem resolveRemote_shadow_fresh:
  assumes "\<not> disposed s"
  shows "\<exists>h1 h2 s1 s2.
           resolveRemote t True s = (Return (Ref h1), s1)
         \<and> resolveRemote t True s1 = (Return (Ref h2), s2)
         \<and> h1 \<noteq> h2
         \<and> heap s2 h1 = Some (ProxyObj False) \<and> heap s2 h2 = Some (ProxyObj False)
         \<and> map_option id_tok (cache s2 h1) = Some t
         \<and> map_option id_tok (cache s2 h2) = Some t
         \<and> disposableCallbacks s2 = disposableCallbacks s @ [h1, h2]"
  using assms
  by (simp add: resolveRemote_def createShadow_def onDispose_def andThen_def Let_def)

text \<open>Token 7 on a fresh endpoint.\<close>

theorem resolveRemote_shadow_fresh_witness:
  "\<exists>h1 h2 s1 s2.
           resolveRemote 7 True init = (Return (Ref h1), s1)
         \<and> resolveRemote 7 True s1 = (Return (Ref h2), s2)
         \<and> h1 \<noteq> h2
         \<and> heap s2 h1 = Some (ProxyObj False) \<and> heap s2 h2 = Some (ProxyObj False)
         \<and> map_option id_tok (cache s2 h1) = Some 7
         \<and> map_option id_tok (cache s2 h2) = Some 7
         \<and> disposableCallbacks s2 = disposableCallbacks init @ [h1, h2]"
  using resolveRemote_shadow_fresh [of init 7] by (simp add: init_def)

text \<open>
  C4 as stated fails: on a fresh endpoint the second \<^verbatim>\<open>resolveRemote(7, true)\<close> does
  not return the handle the first one returned.
\<close>

theorem resolveRemote_shadow_twice:
  "(case resolveRemote 7 True init of
      (Return h1, s1) \<Rightarrow> (case resolveRemote 7 True s1 of
          (Return h2, s2) \<Rightarrow> h1 \<noteq> h2
        | _ \<Rightarrow> False)
    | _ \<Rightarrow> False)"
  by (simp add: resolveRemote_def createShadow_def onDispose_def andThen_def Let_def init_def)

section \<open>Solid values\<close>

text \<open>
  C8 (as amended). A value that \<^verbatim>\<open>isSolid\<close> reports solid, that is not a remote handle
  and that is not an instance of \<^verbatim>\<open>Error\<close>, is packed as a \<^verbatim>\<open>value\<close> entry holding
  the value itself, whatever the \<^verbatim>\<open>clone\<close> argument; packing leaves the state as it
  was, so the same holds however often it is packed.
\<close>

theorem pack_solid_cloned:
  assumes "fst (isSolid v s) = Return True"
    and "\<not> isHandler s v"
    and "fst (instanceOf v CError s) = Return False"
  shows "pack v clone s = (Return (PackedValue v), s)"
  using assms
  by (cases v)
     (auto simp: pack_def isSolid_def instanceOf_def andThen_def deletedField_def throwNew_def
        revokedProxy_def
        split: if_splits option.splits obj.splits)

text \<open>A plain object marked with \<^verbatim>\<open>setSolid\<close>, packed with and without \<^verbatim>\<open>clone\<close>.\<close>

theorem pack_solid_cloned_witness:
  "(case setSolid (Ref 0) plainState of
      (Return u, s) \<Rightarrow>
        fst (isSolid (Ref 0) s) = Return True \<and> \<not> isHandler s (Ref 0)
        \<and> fst (instanceOf (Ref 0) CError s) = Return False
        \<and> pack (Ref 0) False s = (Return (PackedValue (Ref 0)), s)
        \<and> pack (Ref 0) True s = (Return (PackedValue (Ref 0)), s)
    | _ \<Rightarrow> False)"
proof -
  let ?s = "plainState\<lparr>solidObjects := {0}\<rparr>"
  have a: "fst (isSolid (Ref 0) ?s) = Return True"
    by (simp add: isSolid_def plainState_def init_def)
  have b: "\<not> isHandler ?s (Ref 0)"
    by (simp add: isHandler_def plainState_def init_def)
  have c: "fst (instanceOf (Ref 0) CError ?s) = Return False"
    by (simp add: instanceOf_def plainState_def init_def)
  have run: "setSolid (Ref 0) plainState = (Return (), ?s)"
    by (simp add: setSolid_def plainState_def init_def)
  show ?thesis
    using pack_solid_cloned [OF a b c, of False] pack_solid_cloned [OF a b c, of True] a b c
    by (simp add: run)
qed

text \<open>
  C8 as stated fails: an \<^verbatim>\<open>Error\<close> marked with \<^verbatim>\<open>setSolid\<close> is solid and is no
  handle, and \<^verbatim>\<open>pack\<close> still yields an \<^verbatim>\<open>error\<close> entry, since the test for
  \<^verbatim>\<open>Error\<close> comes first.
\<close>

theorem pack_solid_error:
  "(case setSolid (Ref 0) errorState of
      (Return u, s) \<Rightarrow>
        fst (isSolid (Ref 0) s) = Return True \<and> \<not> isHandler s (Ref 0)
        \<and> fst (pack (Ref 0) False s) = Return (PackedError (Str ''Error'') (Str ''boom'') Undefined)
    | _ \<Rightarrow> False)"
  by (simp add: setSolid_def errorState_def init_def isSolid_def isHandler_def pack_def
        instanceOf_def andThen_def errorFields_def)

section \<open>After disposal\<close>

text \<open>
  C3 (as amended). Let \<open>p\<close> be a handle whose \<^verbatim>\<open>revoke\<close> the endpoint holds, as is the
  case for every handle it created. After \<^verbatim>\<open>dispose()\<close>, reading, writing, deleting,
  invoking, instantiating and resolving through \<open>p\<close> each raise a \<^verbatim>\<open>TypeError\<close>. On the
  disposed endpoint \<^verbatim>\<open>setSolid\<close> and \<^verbatim>\<open>isSolid\<close> return without raising for an
  argument that is not a reference, and raise a \<^verbatim>\<open>TypeError\<close> for an object or a
  function, the registries being deleted.
\<close>

theorem disposed_handle_fails:
  assumes "\<not> disposed s" and "p \<in> set (disposableCallbacks s)"
  shows "\<exists>s'. dispose s = (Return (), s')
     \<and> raisesTypeError (Reflect_get h (Ref p) k s')
     \<and> raisesTypeError (Reflect_set h (Ref p) k v s')
     \<and> raisesTypeError (Reflect_deleteProperty h (Ref p) k s')
     \<and> raisesTypeError (Reflect_apply h (Ref p) this args s')
     \<and> raisesTypeError (Reflect_construct h (Ref p) args s')
     \<and> raisesTypeError (handle_resolve p s')
     \<and> (if isReferenceType x
         then raisesTypeError (setSolid x s') \<and> raisesTypeError (isSolid x s')
         else setSolid x s' = (Return (), s') \<and> isSolid x s' = (Return False, s'))"
proof -
  from dispose_live [OF assms(1)] obtain s' where
    d: "dispose s = (Return (), s')" and off: "disposed s'"
    and hp: "heap s' = heap (fold revoke (disposableCallbacks s) s)" by blast
  have rev: "heap s' p = Some (ProxyObj True)"
    using assms(2) by (simp add: hp heap_fold_revoke)
  have ops: "raisesTypeError (Reflect_get h (Ref p) k s')"
    "raisesTypeError (Reflect_set h (Ref p) k v s')"
    "raisesTypeError (Reflect_deleteProperty h (Ref p) k s')"
    "raisesTypeError (Reflect_apply h (Ref p) this args s')"
    "raisesTypeError (Reflect_construct h (Ref p) args s')"
    "raisesTypeError (handle_resolve p s')"
    by (simp_all add: Reflect_get_def Reflect_set_def Reflect_deleteProperty_def
          Reflect_apply_def Reflect_construct_def handle_resolve_def rev raises_revoked)
  have solid: "if isReferenceType x
         then raisesTypeError (setSolid x s') \<and> raisesTypeError (isSolid x s')
         else setSolid x s' = (Return (), s') \<and> isSolid x s' = (Return False, s')"
    using off by (cases x) (simp_all add: setSolid_def isSolid_def raises_deleted)
  from d ops solid show ?thesis by blast
qed

text \<open>A handle for token 7, made beside a plain object, then the endpoint disposed.\<close>

theorem disposed_handle_fails_witness:
  "(case resolveRemote 7 True plainState of
      (Return (Ref p), s) \<Rightarrow>
        \<not> disposed s \<and> p \<in> set (disposableCallbacks s)
        \<and> (\<exists>s'. dispose s = (Return (), s')
           \<and> raisesTypeError (Reflect_get idle (Ref p) (PStr ''x'') s')
           \<and> raisesTypeError (Reflect_set idle (Ref p) (PStr ''x'') (Num 1) s')
           \<and> raisesTypeError (Reflect_deleteProperty idle (Ref p) (PStr ''x'') s')
           \<and> raisesTypeError (Reflect_apply idle (Ref p) Undefined [Num 1] s')
           \<and> raisesTypeError (Reflect_construct idle (Ref p) [Num 1] s')
           \<and> raisesTypeError (handle_resolve p s')
           \<and> raisesTypeError (setSolid (Ref 0) s') \<and> raisesTypeError (isSolid (Ref 0) s')
           \<and> setSolid (Num 5) s' = (Return (), s') \<and> isSolid (Num 5) s' = (Return False, s'))
    | _ \<Rightarrow> False)"
proof -
  let ?s = "plainState\<lparr>heap := (heap plainState)(1 \<mapsto> ProxyObj False), next_ref := 2,
      cache := [1 \<mapsto> \<lparr>id_tok = 7, resolvePromise = None\<rparr>], disposableCallbacks := [1]\<rparr>"
  have run: "resolveRemote 7 True plainState = (Return (Ref 1), ?s)"
    by (simp add: resolveRemote_def createShadow_def onDispose_def andThen_def Let_def
          plainState_def init_def)
  have live: "\<not> disposed ?s" by (simp add: plainState_def init_def)
  have reg: "1 \<in> set (disposableCallbacks ?s)" by simp
  show ?thesis
    using disposed_handle_fails [OF live reg, of idle "PStr ''x''" "Num 1" Undefined "[Num 1]" "Ref 0"]
      disposed_handle_fails [OF live reg, of idle "PStr ''x''" "Num 1" Undefined "[Num 1]" "Num 5"]
      live
    by (auto simp: run)
qed

text \<open>
  C3 as stated fails in its second half: on a disposed endpoint \<^verbatim>\<open>isSolid\<close> and
  \<^verbatim>\<open>setSolid\<close> raise when given an object.
\<close>

theorem disposed_isSolid_raises:
  "(case dispose plainState of
      (Return u, s') \<Rightarrow> raisesTypeError (isSolid (Ref 0) s') \<and> raisesTypeError (setSolid (Ref 0) s')
    | _ \<Rightarrow> False)"
  by (simp add: dispose_def plainState_def init_def isSolid_def setSolid_def raises_deleted)

section \<open>Local lookup: the errors\<close>

text \<open>
  C5. On an endpoint that is not disposed, \<^verbatim>\<open>resolveLocal\<close> given a token the registry
  does not know raises \<^verbatim>\<open>ReferenceError('Invalid Id')\<close> when a kind check was requested
  (a truthy \<^verbatim>\<open>type\<close>: every kind tag and every constructor) and returns
  \<^verbatim>\<open>undefined\<close> without failing when none was; given a token whose promise is fulfilled
  with a value that \<^verbatim>\<open>ensureType\<close> refuses for the expected kind, it raises
  \<^verbatim>\<open>TypeError('Invalid type')\<close>.
\<close>

theorem resolveLocal_taxonomy:
  assumes "\<not> disposed s"
  shows "(\<not> known s i \<and> truthy ty \<longrightarrow>
            resolveLocal i ty s = throwNew ''ReferenceError'' ''Invalid Id'' s)
       \<and> (\<not> known s i \<and> \<not> truthy ty \<longrightarrow> resolveLocal i ty s = (Return Undefined, s))
       \<and> (i = Some k \<and> key2Obj s k = Some p \<and> heap s p = Some (PromiseObj (Fulfilled v))
            \<and> ensureType v ty s = (Return False, s) \<longrightarrow>
            resolveLocal i ty s = throwNew ''TypeError'' ''Invalid type'' s)"
  using assms
  by (auto simp: resolveLocal_def known_def await_def andThen_def Let_def split: option.splits)

text \<open>
  Token 99 is unknown and token 1 holds the number 42; the kinds are the tag
  \<^verbatim>\<open>'function'\<close>, the constructor \<^verbatim>\<open>Function\<close>, and none.
\<close>

theorem resolveLocal_taxonomy_witness:
  "resolveLocal (Some 99) (KTag ''function'') boundState
      = throwNew ''ReferenceError'' ''Invalid Id'' boundState
   \<and> resolveLocal (Some 99) (KCtor CFunction) boundState
      = throwNew ''ReferenceError'' ''Invalid Id'' boundState
   \<and> resolveLocal (Some 99) NoKind boundState = (Return Undefined, boundState)
   \<and> resolveLocal None NoKind boundState = (Return Undefined, boundState)
   \<and> resolveLocal (Some 1) (KTag ''function'') boundState
      = throwNew ''TypeError'' ''Invalid type'' boundState
   \<and> resolveLocal (Some 1) (KCtor CFunction) boundState
      = throwNew ''TypeError'' ''Invalid type'' boundState"
proof -
  have live: "\<not> disposed boundState" by (simp add: boundState_def init_def)
  have u: "\<not> known boundState (Some 99)" "\<not> known boundState None"
    by (simp_all add: known_def boundState_def init_def)
  have b: "key2Obj boundState 1 = Some 0"
    "heap boundState 0 = Some (PromiseObj (Fulfilled (Num 42)))"
    by (simp_all add: boundState_def init_def)
  have e: "ensureType (Num 42) (KTag ''function'') boundState = (Return False, boundState)"
    "ensureType (Num 42) (KCtor CFunction) boundState = (Return False, boundState)"
    by (simp_all add: ensureType_def typeof_def instanceOf_def)
  show ?thesis
    using resolveLocal_taxonomy [OF live, of "Some 99" "KTag ''function''"]
      resolveLocal_taxonomy [OF live, of "Some 99" "KCtor CFunction"]
      resolveLocal_taxonomy [OF live, of "Some 99" NoKind]
      resolveLocal_taxonomy [OF live, of None NoKind]
      resolveLocal_taxonomy [OF live, of "Some 1" "KTag ''function''" 1 0 "Num 42"]
      resolveLocal_taxonomy [OF live, of "Some 1" "KCtor CFunction" 1 0 "Num 42"]
      u b e
    by simp
qed

section \<open>Remote resolution is memoised\<close>

text \<open>
  C10. On an endpoint that is not disposed, \<^verbatim>\<open>resolveRemote(token)\<close> without the shadow
  flag returns a promise: the one the registry already holds under the token, with no
  message sent and the state unchanged, or else a new one, after exactly one
  \<^verbatim>\<open>resolve\<close> request for the token, and it stores that promise under the token. Any
  number of further calls then return the same promise and change nothing, and so does a
  call in any later state of the live endpoint that still holds the promise under the token.
\<close>

theorem resolveRemote_memoized:
  assumes "\<not> disposed s"
  shows "\<exists>p s1. resolveRemote t False s = (Return (Ref p), s1)
     \<and> (case key2Obj s t of
          Some q \<Rightarrow> p = q \<and> s1 = s
        | None \<Rightarrow> outbox s1 = outbox s @ [(msg MResolve)\<lparr>m_from := Some t,
              m_token := Some (uint (counter s) + 1)\<rparr>])
     \<and> key2Obj s1 t = Some p
     \<and> resolveRemoteMany n t s1 = (replicate n (Return (Ref p)), s1)
     \<and> (\<forall>s2. \<not> disposed s2 \<and> key2Obj s2 t = Some p \<longrightarrow>
           resolveRemote t False s2 = (Return (Ref p), s2))"
proof (cases "key2Obj s t")
  case None
  from resolveRemote_miss [OF assms None] obtain s1 where
    r: "resolveRemote t False s = (Return (Ref (next_ref s)), s1)"
    and o: "outbox s1 = outbox s @ [(msg MResolve)\<lparr>m_from := Some t,
          m_token := Some (uint (counter s) + 1)\<rparr>]"
    and k: "key2Obj s1 t = Some (next_ref s)" and l: "\<not> disposed s1" by blast
  show ?thesis
    using r o k None resolveRemoteMany_hit [OF l k, of n]
    by (auto simp: resolveRemote_hit)
next
  case (Some q)
  show ?thesis
    using Some resolveRemote_hit [OF assms Some] resolveRemoteMany_hit [OF assms Some, of n]
    by (auto simp: resolveRemote_hit)
qed

text \<open>Token 7 on a fresh endpoint: one request, then three more calls.\<close>

theorem resolveRemote_memoized_witness:
  "\<exists>p s1. resolveRemote 7 False init = (Return (Ref p), s1)
     \<and> outbox s1 = [(msg MResolve)\<lparr>m_from := Some 7, m_token := Some 1\<rparr>]
     \<and> key2Obj s1 7 = Some p
     \<and> resolveRemoteMany 3 7 s1 = ([Return (Ref p), Return (Ref p), Return (Ref p)], s1)
     \<and> resolveRemote 7 False s1 = (Return (Ref p), s1)"
proof -
  have live: "\<not> disposed init" by (simp add: init_def)
  have k: "key2Obj init 7 = None" "outbox init = []" "counter init = 0"
    by (simp_all add: init_def)
  from resolveRemote_memoized [OF live, of 7 3] obtain p s1 where
    a: "resolveRemote 7 False init = (Return (Ref p), s1)"
    and b: "outbox s1 = [(msg MResolve)\<lparr>m_from := Some 7, m_token := Some 1\<rparr>]"
    and c: "key2Obj s1 7 = Some p"
    and d: "resolveRemoteMany 3 7 s1 = (replicate 3 (Return (Ref p)), s1)"
    and e: "\<forall>s2. \<not> disposed s2 \<and> key2Obj s2 7 = Some p \<longrightarrow>
           resolveRemote 7 False s2 = (Return (Ref p), s2)"
    by (auto simp: k)
  have l1: "\<not> disposed s1"
    using a live by (auto simp: resolveRemote_def sendAndWait_def newPromise_def
        aquireToken_def send_def andThen_def k split: prod.splits)
  from e l1 c have f: "resolveRemote 7 False s1 = (Return (Ref p), s1)" by blast
  from a b c d f show ?thesis by (auto simp: numeral_3_eq_3)
qed

section \<open>Storing the result of a request\<close>

lemma propertyRead_branch:
  "branch h propertyRead exported = throwNew ''TypeError'' ''Invalid type'' exported"
  by (simp add: branch_def propertyRead_def msg_def exported_state init_def resolveLocal_def
        await_def ensureType_def andThen_def Let_def throwNew_def)

lemma sumRequest_branch: "branch adder sumRequest served = (Return (Num 3, False), served)"
  by (simp add: branch_def sumRequest_def msg_def served_def init_def resolveLocal_def
        await_def ensureType_def typeof_def unpackAll_def unpack_def isHandler_def
        Reflect_apply_def adder_def idle_def andThen_def Let_def)

text \<open>
  C2 fails on the code. An endpoint has registered an object under token 1 and receives
  \<^verbatim>\<open>{prepare, from: 1, key: 'x', into: 9, token: 5}\<close>. Whatever the object holds, the
  dispatcher stores nothing under the destination token 9 and answers \<^verbatim>\<open>failed\<close> with a
  \<^verbatim>\<open>TypeError('Invalid type')\<close>: \<^verbatim>\<open>resolveLocal(data.from)\<close>, called without an expected
  kind, passes the object to \<^verbatim>\<open>ensureType(result, undefined)\<close>, which is false. The same
  happens one step later in the pipeline: after an \<^verbatim>\<open>apply\<close> has stored its result 3
  under token 9, a \<^verbatim>\<open>prepare\<close> that names 9 as its source finds the token bound and is
  answered \<^verbatim>\<open>failed\<close> all the same.
\<close>

theorem prepare_stores_nothing:
  "(\<exists>s'. onReceive h propertyRead exported = (Return (), s')
      \<and> key2Obj s' 9 = None
      \<and> outbox s' = [(msg MFailed)\<lparr>m_token := Some 5,
           m_reason := PackedError (Str ''TypeError'') (Str ''Invalid type'')
             (Str ''TypeError: Invalid type'')\<rparr>])
   \<and> (\<exists>s1 s'. onReceive adder sumRequest served = (Return (), s1)
      \<and> key2Obj s1 9 = Some 2 \<and> heap s1 2 = Some (PromiseObj (Fulfilled (Num 3)))
      \<and> outbox s1 = [(msg MSuccess)\<lparr>m_token := Some 5, m_value := Raw (Num 3)\<rparr>]
      \<and> onReceive adder followUp s1 = (Return (), s')
      \<and> outbox s' = outbox s1 @ [(msg MFailed)\<lparr>m_token := Some 6,
           m_reason := PackedError (Str ''TypeError'') (Str ''Invalid type'')
             (Str ''TypeError: Invalid type'')\<rparr>])"
proof -
  have one: "\<exists>s'. onReceive h propertyRead exported = (Return (), s')
      \<and> key2Obj s' 9 = None
      \<and> outbox s' = [(msg MFailed)\<lparr>m_token := Some 5,
           m_reason := PackedError (Str ''TypeError'') (Str ''Invalid type'')
             (Str ''TypeError: Invalid type'')\<rparr>]"
    unfolding onReceive_def propertyRead_branch
    by (simp add: throwNew_def andThen_def recover_def
          pack_def instanceOf_def errorFields_def send_def propertyRead_def msg_def
          exported_state init_def)
  let ?s1 = "served\<lparr>heap := (heap served)(2 \<mapsto> PromiseObj (Fulfilled (Num 3))),
      next_ref := 3, key2Obj := (key2Obj served)(9 \<mapsto> 2),
      outbox := [(msg MSuccess)\<lparr>m_token := Some 5, m_value := Raw (Num 3)\<rparr>]\<rparr>"
  have a: "onReceive adder sumRequest served = (Return (), ?s1)"
    unfolding onReceive_def sumRequest_branch
    by (simp add: andThen_def respond_def storeLocal_def
          promiseResolve_def newPromise_def resolveFn_def setPromise_def pack_def send_def
          Let_def sumRequest_def msg_def served_def init_def)
  have b: "branch adder followUp ?s1 = throwNew ''TypeError'' ''Invalid type'' ?s1"
    by (simp add: branch_def followUp_def msg_def served_def init_def resolveLocal_def
          await_def ensureType_def andThen_def Let_def throwNew_def)
  have c: "\<exists>s'. onReceive adder followUp ?s1 = (Return (), s')
      \<and> outbox s' = outbox ?s1 @ [(msg MFailed)\<lparr>m_token := Some 6,
           m_reason := PackedError (Str ''TypeError'') (Str ''Invalid type'')
             (Str ''TypeError: Invalid type'')\<rparr>]"
    unfolding onReceive_def b
    by (simp add: throwNew_def andThen_def recover_def
          pack_def instanceOf_def errorFields_def send_def followUp_def msg_def
          served_def init_def)
  have d: "key2Obj ?s1 9 = Some 2" "heap ?s1 2 = Some (PromiseObj (Fulfilled (Num 3)))"
    "outbox ?s1 = [(msg MSuccess)\<lparr>m_token := Some 5, m_value := Raw (Num 3)\<rparr>]"
    by simp_all
  from one a c d show ?thesis by blast
qed

text \<open>
  Which branches can compute a value at all. \<^verbatim>\<open>resolveLocal\<close> without an expected kind
  returns only \<^verbatim>\<open>undefined\<close>, for an unknown token, and the \<^verbatim>\<open>Reflect\<close> operation on
  that raises: the branches of \<^verbatim>\<open>prepare\<close>, \<^verbatim>\<open>assign\<close> and \<^verbatim>\<open>delete\<close> never compute a
  value, in any state and for any program.
\<close>

lemma unchecked_lookup:
  assumes "resolveLocal i NoKind s = (Return v, s')"
  shows "v = Undefined"
proof (cases "known s i \<and> \<not> disposed s")
  case True
  then obtain k p where i: "i = Some k" and k: "key2Obj s k = Some p"
    by (auto simp: known_def split: option.splits)
  obtain r s1 where a: "await (Ref p) s = (r, s1)" by (cases "await (Ref p) s")
  show ?thesis
    using assms True
    by (cases r)
       (simp_all add: resolveLocal_def i k a andThen_def ensureType_def throwNew_def)
next
  case False
  then show ?thesis
    using assms
    by (auto simp: resolveLocal_def known_def deletedField_def throwNew_def Let_def
          split: option.splits if_splits)
qed

lemma reflect_undefined:
  "fst (Reflect_get h Undefined k s) \<noteq> Return x"
  "fst (Reflect_set h Undefined k v s) \<noteq> Return b"
  "fst (Reflect_deleteProperty h Undefined k s) \<noteq> Return b"
  by (simp_all add: Reflect_get_def Reflect_set_def Reflect_deleteProperty_def throwNew_def)

lemma andThen_Return:
  "andThen m f = (Return y, s') \<Longrightarrow> \<exists>a s1. m = (Return a, s1) \<and> f a s1 = (Return y, s')"
  by (cases m) (auto simp: andThen_def split: comp.splits)

lemma property_branches_fail:
  assumes "m_type data = MPrepare \<or> m_type data = MAssign \<or> m_type data = MDelete"
  shows "fst (branch h data s) \<noteq> Return x"
proof
  assume "fst (branch h data s) = Return x"
  then obtain s' where b: "branch h data s = (Return x, s')" by (cases "branch h data s") simp
  from assms show False
  proof (elim disjE)
    assume t: "m_type data = MPrepare"
    from b obtain v s1 k s2 res s3 where
      "resolveLocal (m_from data) NoKind s = (Return v, s1)"
      "Reflect_get h v k s2 = (Return res, s3)"
      by (auto simp: branch_def t dest!: andThen_Return)
    with unchecked_lookup reflect_undefined(1) [of h k s2 res] show False
      by (metis fst_conv)
  next
    assume t: "m_type data = MAssign"
    from b obtain v s1 k w s2 u s3 where
      "resolveLocal (m_from data) NoKind s = (Return v, s1)"
      "Reflect_set h v k w s2 = (Return u, s3)"
      by (auto simp: branch_def t dest!: andThen_Return)
    with unchecked_lookup reflect_undefined(2) [of h k w s2 u] show False
      by (metis fst_conv)
  next
    assume t: "m_type data = MDelete"
    from b obtain v s1 k s2 u s3 where
      "resolveLocal (m_from data) NoKind s = (Return v, s1)"
      "Reflect_deleteProperty h v k s2 = (Return u, s3)"
      by (auto simp: branch_def t dest!: andThen_Return)
    with unchecked_lookup reflect_undefined(3) [of h k s2 u] show False
      by (metis fst_conv)
  qed
qed

text \<open>
  Where a branch does compute a value, as those of \<^verbatim>\<open>apply\<close> and \<^verbatim>\<open>construct\<close> can, the
  dispatcher does what the claim says. Let the message carry a destination token \<open>i\<close> and
  let the branch compute \<open>v\<close> on an endpoint that is not disposed. Then \<^verbatim>\<open>storeLocal\<close>
  binds \<open>i\<close> to the promise \<^verbatim>\<open>Promise.resolve(v)\<close>, fulfilled with \<open>v\<close> unless \<open>v\<close> is a
  thenable, while nothing has been sent since the branch ended; the reply, if the message
  carries a correlation token, is the one message sent afterwards, from a state in which
  \<open>i\<close> is bound, and a \<^verbatim>\<open>success\<close> reply leaves the object store as the store left it.
\<close>

lemma computed_value_stored_first:
  assumes into: "m_into data = Some i"
    and br: "branch h data s = (Return (v, c), s1)"
    and live: "\<not> disposed s1"
  shows "\<exists>p s2 s'.
       storeLocal (Some i) v s1 = (Return (), s2)
     \<and> p = fst (promiseResolve v s1) \<and> key2Obj s2 i = Some p
     \<and> (\<exists>st. heap s2 p = Some (PromiseObj st))
     \<and> (allocated s1 v \<and> \<not> thenable s1 v \<longrightarrow> heap s2 p = Some (PromiseObj (Fulfilled v)))
     \<and> outbox s2 = outbox s1
     \<and> onReceive h data s = (Return (), s') \<and> key2Obj s' i = Some p
     \<and> (case m_token data of
          None \<Rightarrow> outbox s' = outbox s1
        | Some t \<Rightarrow> (\<exists>reply s3. send reply s3 = (Return (), s') \<and> key2Obj s3 i = Some p
             \<and> outbox s3 = outbox s1 \<and> outbox s' = outbox s1 @ [reply]
             \<and> m_token reply = Some t
             \<and> (m_type reply = MSuccess \<and> heap s' = heap s2 \<or> m_type reply = MFailed)))"
proof -
  let ?p = "fst (promiseResolve v s1)"
  from storeLocal_live [OF live, of i v] obtain s2 where
    st: "storeLocal (Some i) v s1 = (Return (), s2)"
    and k2: "key2Obj s2 = (key2Obj s1)(i \<mapsto> ?p)"
    and o2k: "obj2Key s2 = (case v of Ref r \<Rightarrow> (obj2Key s1)(r \<mapsto> i) | _ \<Rightarrow> obj2Key s1)"
    and hp: "heap s2 = heap (snd (promiseResolve v s1))"
    and ob: "outbox s2 = outbox s1" and l2: "\<not> disposed s2" by blast
  have prom: "\<exists>st. heap s2 ?p = Some (PromiseObj st)"
    using promiseResolve_promise [of v s1] by (simp add: hp)
  have ful: "allocated s1 v \<and> \<not> thenable s1 v \<longrightarrow> heap s2 ?p = Some (PromiseObj (Fulfilled v))"
    using promiseResolve_fulfilled [of s1 v] by (auto simp: hp)
  have bound: "key2Obj s2 i = Some ?p" by (simp add: k2)
  have run: "andThen (branch h data s) (respond data) =
      (case m_token data of
         None \<Rightarrow> (Return (), s2)
       | Some t \<Rightarrow> andThen (pack v c s2) (\<lambda>pv s3.
           send ((msg MSuccess)\<lparr>m_token := Some t, m_value := pv\<rparr>) s3))"
    by (simp add: br andThen_def respond_def into st)
  show ?thesis
  proof (cases "m_token data")
    case None
    have "onReceive h data s = (Return (), s2)"
      unfolding onReceive_def run by (simp add: None)
    with st bound prom ful ob None show ?thesis by auto
  next
    case (Some t)
    have reg: "case v of Ref r \<Rightarrow> obj2Key s2 r \<noteq> None \<or> cache s2 r \<noteq> None | _ \<Rightarrow> True"
      by (simp add: o2k split: jsval.splits)
    from pack_registered [OF l2 reg, of c] show ?thesis
    proof
      assume "\<exists>pv s3. pack v c s2 = (Return pv, s3) \<and> key2Obj s3 = key2Obj s2
            \<and> outbox s3 = outbox s2 \<and> \<not> disposed s3 \<and> heap s3 = heap s2"
      then obtain pv s3 where pk: "pack v c s2 = (Return pv, s3)"
        and k3: "key2Obj s3 = key2Obj s2" and o3: "outbox s3 = outbox s2"
        and l3: "\<not> disposed s3" and h3: "heap s3 = heap s2" by blast
      let ?reply = "(msg MSuccess)\<lparr>m_token := Some t, m_value := pv\<rparr>"
      let ?s' = "s3\<lparr>outbox := outbox s3 @ [?reply]\<rparr>"
      have fin: "onReceive h data s = (Return (), ?s')"
        unfolding onReceive_def run by (simp add: Some pk andThen_def send_live [OF l3])
      have snd: "send ?reply s3 = (Return (), ?s')" by (rule send_live [OF l3])
      have "key2Obj ?s' i = Some ?p" "key2Obj s3 i = Some ?p" "outbox s3 = outbox s1"
        "outbox ?s' = outbox s1 @ [?reply]" "m_token ?reply = Some t" "m_type ?reply = MSuccess"
        "heap ?s' = heap s2"
        by (simp_all add: k3 bound o3 ob h3 msg_def)
      with st bound prom ful ob fin snd Some show ?thesis by auto
    next
      assume "\<exists>e n m k s3. pack v c s2 = (Throw (Ref e), s3) \<and> key2Obj s3 = key2Obj s2
            \<and> outbox s3 = outbox s2 \<and> \<not> disposed s3 \<and> heap s3 e = Some (ErrorObj n m k)"
      then obtain e n m k s3 where pk: "pack v c s2 = (Throw (Ref e), s3)"
        and k3: "key2Obj s3 = key2Obj s2" and o3: "outbox s3 = outbox s2"
        and l3: "\<not> disposed s3" and he: "heap s3 e = Some (ErrorObj n m k)" by blast
      let ?reply = "(msg MFailed)\<lparr>m_token := Some t, m_reason := PackedError n m k\<rparr>"
      let ?s' = "s3\<lparr>outbox := outbox s3 @ [?reply]\<rparr>"
      have fin: "onReceive h data s = (Return (), ?s')"
        unfolding onReceive_def run
        by (simp add: Some pk andThen_def recover_def pack_error [OF he] send_live [OF l3])
      have snd: "send ?reply s3 = (Return (), ?s')" by (rule send_live [OF l3])
      have "key2Obj ?s' i = Some ?p" "key2Obj s3 i = Some ?p" "outbox s3 = outbox s1"
        "outbox ?s' = outbox s1 @ [?reply]" "m_token ?reply = Some t" "m_type ?reply = MFailed"
        by (simp_all add: k3 bound o3 ob msg_def)
      with st bound prom ful ob fin snd Some show ?thesis by auto
    qed
  qed
qed

text \<open>
  The call of the adding function: 3 is stored under token 9, then reported under token 5.
\<close>

lemma sum_stored_first:
  "m_into sumRequest = Some 9
   \<and> branch adder sumRequest served = (Return (Num 3, False), served)
   \<and> \<not> disposed served
   \<and> (\<exists>p s2 s'.
       storeLocal (Some 9) (Num 3) served = (Return (), s2)
     \<and> p = fst (promiseResolve (Num 3) served) \<and> key2Obj s2 9 = Some p
     \<and> heap s2 p = Some (PromiseObj (Fulfilled (Num 3)))
     \<and> outbox s2 = outbox served
     \<and> onReceive adder sumRequest served = (Return (), s') \<and> key2Obj s' 9 = Some p
     \<and> (\<exists>reply s3. send reply s3 = (Return (), s') \<and> key2Obj s3 9 = Some p
             \<and> outbox s3 = outbox served \<and> outbox s' = outbox served @ [reply]
             \<and> m_token reply = Some 5
             \<and> (m_type reply = MSuccess \<and> heap s' = heap s2 \<or> m_type reply = MFailed)))"
proof -
  have a: "m_into sumRequest = Some 9" by (simp add: sumRequest_def)
  have t: "m_token sumRequest = Some 5" by (simp add: sumRequest_def)
  have c: "\<not> disposed served" by (simp add: served_def init_def)
  have d: "allocated served (Num 3)" "\<not> thenable served (Num 3)"
    by (simp_all add: allocated_def thenable_def)
  show ?thesis
    using computed_value_stored_first [OF a sumRequest_branch c] a c d sumRequest_branch
    by (simp add: t) blast
qed

section \<open>Failures are answered when there is a correlation token\<close>

text \<open>
  C6. Let the branch of an inbound message raise \<open>e\<close> on an endpoint that is not disposed,
  \<open>e\<close> being anything but a revoked proxy (which cannot be packed). Then \<open>e\<close> is packed
  without anything being sent, and the dispatcher returns normally: if the message carries
  a correlation token, exactly one message has been sent since the branch ended, the
  \<^verbatim>\<open>failed\<close> message with that token and the packed \<open>e\<close> as its reason; if it carries
  none, the state is the one the branch left, so nothing was sent.
\<close>

theorem failure_reply_iff_token:
  assumes br: "branch h data s = (Throw e, s1)"
    and live: "\<not> disposed s1"
    and ok: "\<not> revokedHandle s1 e"
  shows "\<exists>pe s2. pack e False s1 = (Return pe, s2) \<and> outbox s2 = outbox s1
     \<and> onReceive h data s = (Return (),
          (case m_token data of
             None \<Rightarrow> s1
           | Some t \<Rightarrow> s2\<lparr>outbox := outbox s1 @
               [(msg MFailed)\<lparr>m_token := Some t, m_reason := pe\<rparr>]\<rparr>))"
proof -
  from pack_live [OF live ok, of False] obtain pe s2 where
    pk: "pack e False s1 = (Return pe, s2)" and ob: "outbox s2 = outbox s1"
    and l2: "\<not> disposed s2" by blast
  have run: "andThen (branch h data s) (respond data) = (Throw e, s1)"
    by (simp add: br andThen_def)
  have "onReceive h data s = (Return (),
          (case m_token data of
             None \<Rightarrow> s1
           | Some t \<Rightarrow> s2\<lparr>outbox := outbox s1 @
               [(msg MFailed)\<lparr>m_token := Some t, m_reason := pe\<rparr>]\<rparr>))"
    unfolding onReceive_def run
    by (simp add: recover_def pk andThen_def send_live [OF l2] ob split: option.splits)
  with pk ob show ?thesis by blast
qed

text \<open>
  A call through an unknown token is answered with the packed \<^verbatim>\<open>ReferenceError\<close>; a
  failing \<^verbatim>\<open>delete\<close> without token is answered with nothing.
\<close>

lemma lostRequest_branch:
  "branch idle lostRequest served = throwNew ''ReferenceError'' ''Invalid Id'' served"
  by (simp add: branch_def lostRequest_def msg_def served_def init_def resolveLocal_def
        andThen_def Let_def throwNew_def)

lemma silentDelete_branch:
  "branch idle silentDelete served = throwNew ''TypeError'' ''Invalid type'' served"
  by (simp add: branch_def silentDelete_def msg_def served_def init_def resolveLocal_def
        await_def ensureType_def andThen_def Let_def throwNew_def)

theorem failure_reply_iff_token_witness:
  "(case branch idle lostRequest served of
      (Throw e, s1) \<Rightarrow> \<not> disposed s1 \<and> \<not> revokedHandle s1 e
        \<and> pack e False s1 = (Return (PackedError (Str ''ReferenceError'') (Str ''Invalid Id'')
              (Str ''ReferenceError: Invalid Id'')), s1)
        \<and> onReceive idle lostRequest served = (Return (),
            s1\<lparr>outbox := outbox s1 @ [(msg MFailed)\<lparr>m_token := Some 5,
              m_reason := PackedError (Str ''ReferenceError'') (Str ''Invalid Id'')
                (Str ''ReferenceError: Invalid Id'')\<rparr>]\<rparr>)
    | _ \<Rightarrow> False)
   \<and> (case branch idle silentDelete served of
      (Throw e, s1) \<Rightarrow> \<not> disposed s1 \<and> \<not> revokedHandle s1 e
        \<and> onReceive idle silentDelete served = (Return (), s1) \<and> outbox s1 = outbox served
    | _ \<Rightarrow> False)"
proof -
  let ?e = "Ref (next_ref served)"
  let ?s1 = "served\<lparr>heap := (heap served)(next_ref served \<mapsto>
       ErrorObj (Str ''ReferenceError'') (Str ''Invalid Id'') (Str ''ReferenceError: Invalid Id'')),
     next_ref := next_ref served + 1\<rparr>"
  let ?s2 = "served\<lparr>heap := (heap served)(next_ref served \<mapsto>
       ErrorObj (Str ''TypeError'') (Str ''Invalid type'') (Str ''TypeError: Invalid type'')),
     next_ref := next_ref served + 1\<rparr>"
  have b1: "branch idle lostRequest served = (Throw ?e, ?s1)"
    by (simp add: lostRequest_branch throwNew_def)
  have b2: "branch idle silentDelete served = (Throw ?e, ?s2)"
    by (simp add: silentDelete_branch throwNew_def)
  have l: "\<not> disposed ?s1" "\<not> disposed ?s2" by (simp_all add: served_def init_def)
  have r: "\<not> revokedHandle ?s1 ?e" "\<not> revokedHandle ?s2 ?e" by (simp_all add: revokedHandle_def)
  have p1: "pack ?e False ?s1 = (Return (PackedError (Str ''ReferenceError'') (Str ''Invalid Id'')
              (Str ''ReferenceError: Invalid Id'')), ?s1)"
    by (rule pack_error) simp
  have t: "m_token lostRequest = Some 5" "m_token silentDelete = None"
    by (simp_all add: lostRequest_def silentDelete_def msg_def)
  show ?thesis
    using failure_reply_iff_token [OF b1 l(1) r(1)] failure_reply_iff_token [OF b2 l(2) r(2)]
      l r p1
    by (auto simp: b1 b2 t)
qed

section \<open>Replies settle pending requests\<close>

lemma success_settles:
  assumes live: "\<not> disposed s" and tok: "m_token data = Some t"
    and pend: "resolvers s t = Some p" and hp: "heap s p = Some (PromiseObj Pending)"
    and al: "p < next_ref s" and ty: "m_type data = MSuccess"
  shows "\<exists>v s1 s'.
       unpack (m_value data) (s\<lparr>resolvers := (resolvers s)(t := None)\<rparr>) = (Return v, s1)
     \<and> onReceive h data s = (Return (), s')
     \<and> heap s' p = heap (resolveFn p v s1) p
     \<and> (\<not> thenable s1 v \<longrightarrow> heap s' p = Some (PromiseObj (Fulfilled v)))
     \<and> (thenable s1 v \<and> \<not> revokedHandle s1 v \<and> v \<noteq> Ref p \<longrightarrow>
          heap s' p = Some (PromiseObj (Following v)))
     \<and> resolvers s' t \<noteq> Some p"
proof -
  let ?s0 = "s\<lparr>resolvers := (resolvers s)(t := None)\<rparr>"
  have l0: "\<not> disposed ?s0" using live by simp
  from unpack_live [OF l0, of "m_value data"] obtain v s1 where
    un: "unpack (m_value data) ?s0 = (Return v, s1)" and l1: "\<not> disposed s1"
    and nx: "next_ref ?s0 \<le> next_ref s1"
    and old: "\<forall>q. q < next_ref ?s0 \<longrightarrow> heap s1 q = heap ?s0 q"
    and rs: "\<forall>u q. q < next_ref ?s0 \<longrightarrow> resolvers s1 u = Some q \<longrightarrow> resolvers ?s0 u = Some q"
    by blast
  let ?sb = "resolveFn p v s1"
  have h1: "heap s1 p = Some (PromiseObj Pending)" using old al hp by simp
  have al0: "p < next_ref ?s0" using al by simp
  have gone: "resolvers s1 t \<noteq> Some p"
  proof
    assume "resolvers s1 t = Some p"
    with rs al0 have "resolvers ?s0 t = Some p" by blast
    then show False by simp
  qed
  have tb: "tablesOf ?sb = tablesOf s1" by (rule resolveFn_tables)
  have lb: "\<not> disposed ?sb" using tables_eqD(1) [OF tb] l1 by simp
  have rb: "resolvers ?sb = resolvers s1" by (rule tables_eqD(2) [OF tb])
  have pb: "p < next_ref ?sb" using al nx resolveFn_next [of s1 p v] by simp
  have br: "branch h data s = (Return (Undefined, False), ?sb)"
    by (simp add: branch_def ty tok popResolver_hit [OF live pend] andThen_def un)
  from respond_undefined [OF lb, of data] obtain s' where
    re: "respond data (Undefined, False) ?sb = (Return (), s')"
    and rr: "resolvers s' = resolvers ?sb"
    and oh: "\<forall>q. q < next_ref ?sb \<longrightarrow> heap s' q = heap ?sb q" by blast
  have fin: "onReceive h data s = (Return (), s')"
    by (simp add: onReceive_def br andThen_def re)
  have same: "heap s' p = heap ?sb p" using oh pb by simp
  have ful: "\<not> thenable s1 v \<longrightarrow> heap s' p = Some (PromiseObj (Fulfilled v))"
    using resolveFn_fulfilled [OF h1] same by simp
  have fol: "thenable s1 v \<and> \<not> revokedHandle s1 v \<and> v \<noteq> Ref p \<longrightarrow>
          heap s' p = Some (PromiseObj (Following v))"
    using resolveFn_following [OF h1] same by simp
  have "resolvers s' t \<noteq> Some p" using gone by (simp add: rr rb)
  with un fin same ful fol show ?thesis by blast
qed

lemma failed_settles:
  assumes live: "\<not> disposed s" and tok: "m_token data = Some t"
    and pend: "resolvers s t = Some p" and hp: "heap s p = Some (PromiseObj Pending)"
    and al: "p < next_ref s" and ty: "m_type data = MFailed"
  shows "\<exists>v s1 s'.
       unpack (m_reason data) (s\<lparr>resolvers := (resolvers s)(t := None)\<rparr>) = (Return v, s1)
     \<and> onReceive h data s = (Return (), s')
     \<and> heap s' p = Some (PromiseObj (Rejected v))
     \<and> resolvers s' t \<noteq> Some p"
proof -
  let ?s0 = "s\<lparr>resolvers := (resolvers s)(t := None)\<rparr>"
  have l0: "\<not> disposed ?s0" using live by simp
  from unpack_live [OF l0, of "m_reason data"] obtain v s1 where
    un: "unpack (m_reason data) ?s0 = (Return v, s1)" and l1: "\<not> disposed s1"
    and nx: "next_ref ?s0 \<le> next_ref s1"
    and old: "\<forall>q. q < next_ref ?s0 \<longrightarrow> heap s1 q = heap ?s0 q"
    and rs: "\<forall>u q. q < next_ref ?s0 \<longrightarrow> resolvers s1 u = Some q \<longrightarrow> resolvers ?s0 u = Some q"
    by blast
  let ?sb = "rejectFn p v s1"
  have h1: "heap s1 p = Some (PromiseObj Pending)" using old al hp by simp
  have al0: "p < next_ref ?s0" using al by simp
  have gone: "resolvers s1 t \<noteq> Some p"
  proof
    assume "resolvers s1 t = Some p"
    with rs al0 have "resolvers ?s0 t = Some p" by blast
    then show False by simp
  qed
  have tb: "tablesOf ?sb = tablesOf s1" by (rule rejectFn_tables)
  have lb: "\<not> disposed ?sb" using tables_eqD(1) [OF tb] l1 by simp
  have rb: "resolvers ?sb = resolvers s1" by (rule tables_eqD(2) [OF tb])
  have pb: "p < next_ref ?sb" using al nx rejectFn_rejected(2) [OF h1, of v] by simp
  have br: "branch h data s = (Return (Undefined, False), ?sb)"
    by (simp add: branch_def ty tok popResolver_hit [OF live pend] andThen_def un)
  from respond_undefined [OF lb, of data] obtain s' where
    re: "respond data (Undefined, False) ?sb = (Return (), s')"
    and rr: "resolvers s' = resolvers ?sb"
    and oh: "\<forall>q. q < next_ref ?sb \<longrightarrow> heap s' q = heap ?sb q" by blast
  have fin: "onReceive h data s = (Return (), s')"
    by (simp add: onReceive_def br andThen_def re)
  have same: "heap s' p = Some (PromiseObj (Rejected v))"
    using oh pb rejectFn_rejected(1) [OF h1, of v] by simp
  have "resolvers s' t \<noteq> Some p" using gone by (simp add: rr rb)
  with un fin same show ?thesis by blast
qed

lemma stray_ignored:
  assumes live: "\<not> disposed s"
    and none: "case m_token data of None \<Rightarrow> True | Some t \<Rightarrow> resolvers s t = None"
    and ty: "m_type data = MSuccess \<or> m_type data = MFailed"
  shows "\<exists>s'. onReceive h data s = (Return (), s') \<and> resolvers s' = resolvers s
     \<and> (\<forall>q. q < next_ref s \<longrightarrow> heap s' q = heap s q)
     \<and> outbox s' = outbox s @ (case m_token data of
          None \<Rightarrow> []
        | Some u \<Rightarrow> [(msg MSuccess)\<lparr>m_token := Some u, m_value := Raw Undefined\<rparr>])"
proof -
  have br: "branch h data s = (Return (Undefined, False), s)"
    using ty by (auto simp: branch_def popResolver_miss [OF live none] andThen_def)
  from respond_undefined [OF live, of data] obtain s' where
    re: "respond data (Undefined, False) s = (Return (), s')"
    and rr: "resolvers s' = resolvers s"
    and oh: "\<forall>q. q < next_ref s \<longrightarrow> heap s' q = heap s q"
    and ob: "outbox s' = outbox s @ (case m_token data of
          None \<Rightarrow> []
        | Some u \<Rightarrow> [(msg MSuccess)\<lparr>m_token := Some u, m_value := Raw Undefined\<rparr>])"
    by blast
  have "onReceive h data s = (Return (), s')"
    by (simp add: onReceive_def br andThen_def re)
  with rr oh ob show ?thesis by blast
qed

text \<open>
  C7 (as amended). On an endpoint that is not disposed, let \<open>p\<close> be the pending promise
  that \<^verbatim>\<open>sendAndWait\<close> recorded under token \<open>t\<close>. A \<^verbatim>\<open>success\<close> message with token \<open>t\<close>
  resolves \<open>p\<close> with \<^verbatim>\<open>unpack(value)\<close>: \<open>p\<close> is fulfilled with that value when it is not
  a thenable, and is locked onto it, not fulfilled, when it is a promise other than \<open>p\<close>
  or a live handle. A \<^verbatim>\<open>failed\<close> message with token \<open>t\<close> rejects \<open>p\<close> with
  \<^verbatim>\<open>unpack(reason)\<close>. Either way the entry of \<open>p\<close> is gone afterwards. A \<^verbatim>\<open>success\<close> or
  \<^verbatim>\<open>failed\<close> message with no token, or with a token that has no entry, settles nothing:
  the table of resolvers and every existing promise are as they were (what the dispatcher
  sends then is the reply that C1 is about, and nothing else).
\<close>

theorem reply_settles_pending:
  assumes "\<not> disposed s"
  shows "(m_type data = MSuccess \<and> m_token data = Some t \<and> resolvers s t = Some p
          \<and> heap s p = Some (PromiseObj Pending) \<and> p < next_ref s \<longrightarrow>
          (\<exists>v s1 s'.
             unpack (m_value data) (s\<lparr>resolvers := (resolvers s)(t := None)\<rparr>) = (Return v, s1)
           \<and> onReceive h data s = (Return (), s')
           \<and> heap s' p = heap (resolveFn p v s1) p
           \<and> (\<not> thenable s1 v \<longrightarrow> heap s' p = Some (PromiseObj (Fulfilled v)))
           \<and> (thenable s1 v \<and> \<not> revokedHandle s1 v \<and> v \<noteq> Ref p \<longrightarrow>
                heap s' p = Some (PromiseObj (Following v)))
           \<and> resolvers s' t \<noteq> Some p))
       \<and> (m_type data = MFailed \<and> m_token data = Some t \<and> resolvers s t = Some p
          \<and> heap s p = Some (PromiseObj Pending) \<and> p < next_ref s \<longrightarrow>
          (\<exists>v s1 s'.
             unpack (m_reason data) (s\<lparr>resolvers := (resolvers s)(t := None)\<rparr>) = (Return v, s1)
           \<and> onReceive h data s = (Return (), s')
           \<and> heap s' p = Some (PromiseObj (Rejected v))
           \<and> resolvers s' t \<noteq> Some p))
       \<and> ((m_type data = MSuccess \<or> m_type data = MFailed)
          \<and> (case m_token data of None \<Rightarrow> True | Some u \<Rightarrow> resolvers s u = None) \<longrightarrow>
          (\<exists>s'. onReceive h data s = (Return (), s') \<and> resolvers s' = resolvers s
             \<and> (\<forall>q. q < next_ref s \<longrightarrow> heap s' q = heap s q)
             \<and> outbox s' = outbox s @ (case m_token data of
                  None \<Rightarrow> []
                | Some u \<Rightarrow> [(msg MSuccess)\<lparr>m_token := Some u, m_value := Raw Undefined\<rparr>])))"
  using success_settles [OF assms, of data t p h] failed_settles [OF assms, of data t p h]
    stray_ignored [OF assms, of data h]
  by blast

text \<open>
  The waiting endpoint receives the reply with the number 42, or a reply whose value is a
  reference to the remote token 3, or the refusal, or a reply under the stray token 77.
\<close>

theorem reply_settles_pending_witness:
  "resolvers waiting 1 = Some 0 \<and> heap waiting 0 = Some (PromiseObj Pending)
   \<and> (\<exists>s'. onReceive idle answer waiting = (Return (), s')
        \<and> heap s' 0 = Some (PromiseObj (Fulfilled (Num 42))) \<and> resolvers s' 1 \<noteq> Some 0)
   \<and> (\<exists>s'. onReceive idle handleAnswer waiting = (Return (), s')
        \<and> heap s' 0 = Some (PromiseObj (Following (Ref 1))) \<and> resolvers s' 1 \<noteq> Some 0)
   \<and> (\<exists>s'. onReceive idle refusal waiting = (Return (), s')
        \<and> heap s' 0 = Some (PromiseObj (Rejected (Str ''no''))) \<and> resolvers s' 1 \<noteq> Some 0)
   \<and> (\<exists>s'. onReceive idle (answer\<lparr>m_token := Some 77\<rparr>) waiting = (Return (), s')
        \<and> resolvers s' = resolvers waiting \<and> heap s' 0 = heap waiting 0
        \<and> outbox s' = outbox waiting @ [(msg MSuccess)\<lparr>m_token := Some 77\<rparr>])"
proof -
  note w = waiting_facts
  have a: "m_type answer = MSuccess" "m_token answer = Some 1" "m_value answer = Raw (Num 42)"
    by (simp_all add: answer_def msg_def)
  have b: "m_type handleAnswer = MSuccess" "m_token handleAnswer = Some 1"
    "m_value handleAnswer = PackedToken Shadow 3"
    by (simp_all add: handleAnswer_def msg_def)
  have r: "m_type refusal = MFailed" "m_token refusal = Some 1"
    "m_reason refusal = Raw (Str ''no'')"
    by (simp_all add: refusal_def msg_def)
  have x: "m_type (answer\<lparr>m_token := Some 77\<rparr>) = MSuccess"
    "m_token (answer\<lparr>m_token := Some 77\<rparr>) = Some 77"
    by (simp_all add: answer_def msg_def)
  have one: "\<exists>s'. onReceive idle answer waiting = (Return (), s')
        \<and> heap s' 0 = Some (PromiseObj (Fulfilled (Num 42))) \<and> resolvers s' 1 \<noteq> Some 0"
    using reply_settles_pending [OF w(1), of answer 1 0 idle] w a
    by (auto simp: unpack_def thenable_def)
  have un: "unpack (PackedToken Shadow 3) (waiting\<lparr>resolvers := (resolvers waiting)(1 := None)\<rparr>)
      = (Return (Ref 1), waiting\<lparr>resolvers := (resolvers waiting)(1 := None),
           heap := (heap waiting)(1 \<mapsto> ProxyObj False), next_ref := 2,
           cache := [1 \<mapsto> \<lparr>id_tok = 3, resolvePromise = None\<rparr>],
           disposableCallbacks := [1]\<rparr>)"
    by (simp add: unpack_def resolveRemote_def createShadow_def onDispose_def andThen_def
          Let_def waiting_state init_def)
  have handle: "\<exists>s'. onReceive idle handleAnswer waiting = (Return (), s')
        \<and> heap s' 0 = Some (PromiseObj (Following (Ref 1))) \<and> resolvers s' 1 \<noteq> Some 0"
    using reply_settles_pending [OF w(1), of handleAnswer 1 0 idle] w b
    by (auto simp: un thenable_def revokedHandle_def)
  have two: "\<exists>s'. onReceive idle refusal waiting = (Return (), s')
        \<and> heap s' 0 = Some (PromiseObj (Rejected (Str ''no''))) \<and> resolvers s' 1 \<noteq> Some 0"
    using reply_settles_pending [OF w(1), of refusal 1 0 idle] w r
    by (auto simp: unpack_def)
  have three: "\<exists>s'. onReceive idle (answer\<lparr>m_token := Some 77\<rparr>) waiting = (Return (), s')
        \<and> resolvers s' = resolvers waiting \<and> heap s' 0 = heap waiting 0
        \<and> outbox s' = outbox waiting @ [(msg MSuccess)\<lparr>m_token := Some 77\<rparr>]"
    using reply_settles_pending [OF w(1), of "answer\<lparr>m_token := Some 77\<rparr>" 1 0 idle] w x
    by (auto simp: msg_def)
  from one handle two three w show ?thesis by blast
qed

text \<open>
  C7 as stated fails: the reply to the waiting endpoint carries a reference to the remote
  token 3; \<^verbatim>\<open>unpack\<close> makes a handle of it, and the pending promise is not fulfilled with
  that handle but locked onto it, and stays unsettled.
\<close>

theorem reply_with_handle_not_fulfilled:
  "(case unpack (m_value handleAnswer)
           (waiting\<lparr>resolvers := (resolvers waiting)(1 := None)\<rparr>) of
      (Return v, s1) \<Rightarrow> (case onReceive idle handleAnswer waiting of
          (Return u, s') \<Rightarrow>
            heap s' 0 = Some (PromiseObj (Following v))
            \<and> heap s' 0 \<noteq> Some (PromiseObj (Fulfilled v))
        | _ \<Rightarrow> False)
    | _ \<Rightarrow> False)"
  by (simp add: onReceive_def branch_def respond_def popResolver_def unpack_def
        resolveRemote_def createShadow_def onDispose_def resolveFn_def setPromise_def
        pack_def send_def andThen_def Let_def handleAnswer_def msg_def waiting_state init_def)

section \<open>A reply is itself replied to\<close>

text \<open>
  C1 fails on the code. The waiting endpoint receives the \<^verbatim>\<open>success\<close> message for its
  request: the pending promise is fulfilled with 42, and the dispatcher then runs the
  statements after the \<^verbatim>\<open>switch\<close> as for a request and sends a \<^verbatim>\<open>success\<close> message of
  its own, with the same token and no value. A fresh endpoint that receives that message
  settles nothing and sends the same message back.
\<close>

theorem success_is_answered:
  "(\<exists>s'. onReceive h answer waiting = (Return (), s')
      \<and> heap s' 0 = Some (PromiseObj (Fulfilled (Num 42)))
      \<and> outbox s' = outbox waiting @ [echo])
   \<and> (\<exists>s'. onReceive h echo init = (Return (), s') \<and> outbox s' = [echo])"
  by (simp add: onReceive_def branch_def respond_def popResolver_def unpack_def resolveFn_def
        setPromise_def pack_def send_def andThen_def answer_def echo_def msg_def
        waiting_state init_def)

end
